theory Spec2Isabelle
  imports Complex_Main
begin

section \<open>Data model\<close>

text \<open>
  The interfaces of \<^verbatim>\<open>utils/types.ts\<close>. A JavaScript number is modelled as a real
  (rounding, NaN and the infinities are outside the model). The field \<^verbatim>\<open>id\<close> of
  \<^verbatim>\<open>iVideo\<close> is called \<open>vid\<close>; where two interfaces share a field name the later
  record carries a suffix (\<open>title_r\<close>, \<open>features_r\<close> of a ranking, \<open>title_p\<close> of a
  prediction). A \<^verbatim>\<open>Record<string, number>\<close> is a map from strings to reals.
\<close>

datatype error = Error string | TypeError string

record iVideo =
  vid :: string
  title :: string
  views :: real
  likes :: real
  comments :: real
  date :: string
  duration :: real

record iFeature =
  name :: string
  summary :: string
  description :: string

record iTrainingVideo = iVideo +
  recentViews :: "real list"

record iFeaturedVideo = iTrainingVideo +
  features :: "string \<rightharpoonup> real"

record iPrediction =
  title_p :: string
  actual :: real
  predicted :: real
  diff :: real
  delta :: real

record iRanking =
  title_r :: string
  features_r :: "string \<rightharpoonup> real"

text \<open>
  The regression model of the library \<^verbatim>\<open>ml-regression-multivariate-linear\<close>. The source
  trains on one output column, so every row of \<^verbatim>\<open>mlr.weights\<close>, of \<^verbatim>\<open>Y\<close> and of a
  prediction is a one-element array; the model keeps the element.
\<close>

record MLR =
  weights :: "real list"

section \<open>JavaScript array helpers\<close>

text \<open>\<^verbatim>\<open>Array.prototype.slice(start, end)\<close>: a negative bound counts from the end, and both
  bounds are clamped to the array.\<close>

definition slice :: "'a list \<Rightarrow> int \<Rightarrow> int \<Rightarrow> 'a list" where
  "slice xs start end' =
     (let n = int (length xs);
          k = (if start < 0 then max (n + start) 0 else min start n);
          final = (if end' < 0 then max (n + end') 0 else min end' n)
      in take (nat (final - k)) (drop (nat k) xs))"

text \<open>\<^verbatim>\<open>Array.prototype.indexOf\<close>: the first position holding the value; \<open>None\<close> stands for
  the result \<^verbatim>\<open>-1\<close>.\<close>

fun indexOf :: "'a list \<Rightarrow> 'a \<Rightarrow> nat option" where
  "indexOf [] d = None"
| "indexOf (x # xs) d = (if x = d then Some 0 else map_option Suc (indexOf xs d))"

text \<open>\<^verbatim>\<open>v.features[key] || 0\<close>: a missing key reads as \<^verbatim>\<open>undefined\<close>, which \<^verbatim>\<open>||\<close> replaces
  by 0 (as it does the score 0 itself).\<close>

definition featureScore :: "(string \<rightharpoonup> real) \<Rightarrow> string \<Rightarrow> real" where
  "featureScore fs key = (case fs key of None \<Rightarrow> 0 | Some x \<Rightarrow> x)"

section \<open>Step 3 of the source: the least important feature\<close>

text \<open>
  \<^verbatim>\<open>updateFeatures(features, mlr)\<close>. The feature coefficients are what is left of the
  weights after \<^verbatim>\<open>slice(4, weights.length - 1)\<close> and after the destructuring
  \<^verbatim>\<open>[_, ...featureCoefficients]\<close> has dropped one more entry at the front. The
  \<^verbatim>\<open>reduce\<close> starts from index 0 and moves to a later index only on a strictly smaller
  importance. On an empty feature list \<^verbatim>\<open>features[0]\<close> is \<^verbatim>\<open>undefined\<close> and reading its
  name throws a TypeError.
\<close>

definition featureCoefficients :: "MLR \<Rightarrow> real list" where
  "featureCoefficients mlr =
     tl (slice (weights mlr) 4 (int (length (weights mlr)) - 1))"

definition featuresValue :: "iFeature list \<Rightarrow> MLR \<Rightarrow> (string \<times> real) list" where
  "featuresValue fs mlr =
     map (\<lambda>(key, i). (key, \<bar>featureCoefficients mlr ! i\<bar>))
       (zip (map name fs) [0 ..< length fs])"

definition leastFeatureIdx :: "(string \<times> real) list \<Rightarrow> nat" where
  "leastFeatureIdx arr =
     foldl (\<lambda>minIdx idx. if snd (arr ! idx) < snd (arr ! minIdx) then idx else minIdx)
       0 [0 ..< length arr]"

definition updateFeatures :: "iFeature list \<Rightarrow> MLR \<Rightarrow> error + (iFeature list \<times> iFeature)" where
  "updateFeatures fs mlr =
     (if length (featureCoefficients mlr) \<noteq> length (map name fs)
      then Inl (Error ''Feature length mismatch'')
      else
        let i = leastFeatureIdx (featuresValue fs mlr);
            bestFeatures = map fst (filter (\<lambda>(f, j). j \<noteq> i) (zip fs [0 ..< length fs]))
        in if i < length fs then Inr (bestFeatures, fs ! i)
           else Inl (TypeError ''Cannot read properties of undefined (reading name)''))"

section \<open>External collaborators\<close>

text \<open>
  What the loop calls but the repository does not decide: the random shuffle of the
  videos, the regression library (its constructor and \<^verbatim>\<open>predict\<close>), the proposer
  \<^verbatim>\<open>addFeature\<close> (a prompt to a language model), the language-model client behind
  \<^verbatim>\<open>rankVideos\<close>, and \<^verbatim>\<open>String.prototype.normalize('NFKC')\<close>. Each is a field of the
  environment; a call that throws returns \<open>Inl\<close>. Replies may change from call to call,
  so the shuffle and the proposer take the iteration index, and the client takes the
  iteration index, the call site within the iteration (0 for the training videos, 1 for
  the validation videos), the Ollama model when one is given (otherwise the Gemma client
  is called) and the number of calls the batching loop has made so far. The prompt and the
  schema sent to the client are functions of the batch titles and the features, which the
  client receives in their place.
\<close>

type_synonym client = "string option \<Rightarrow> nat \<Rightarrow> string list \<Rightarrow> iFeature list \<Rightarrow> error + iRanking list"

record env =
  shuffle :: "nat \<Rightarrow> iFeaturedVideo list \<Rightarrow> iFeaturedVideo list"
  MLR_new :: "real list list \<Rightarrow> real list \<Rightarrow> error + MLR"
  MLR_predict :: "MLR \<Rightarrow> real list list \<Rightarrow> error + real list"
  addFeature :: "nat \<Rightarrow> iFeature list \<Rightarrow> iPrediction list \<Rightarrow> iFeature option list \<Rightarrow> error + iFeature"
  LLMClient :: "nat \<Rightarrow> nat \<Rightarrow> client"
  normalize :: "string \<Rightarrow> string"

text \<open>
  The outcome of an awaited call: \<open>None\<close> when it never settles (the fuel of a loop ran
  out), \<open>Some (Inl e)\<close> when it throws \<open>e\<close>, \<open>Some (Inr x)\<close> when it returns \<open>x\<close>.
\<close>

type_synonym 'a outcome = "(error + 'a) option"

definition andThen :: "'a outcome \<Rightarrow> ('a \<Rightarrow> 'b outcome) \<Rightarrow> 'b outcome" where
  "andThen m f = (case m of None \<Rightarrow> None | Some (Inl e) \<Rightarrow> Some (Inl e) | Some (Inr x) \<Rightarrow> f x)"

section \<open>Step 2 of the source: training\<close>

definition trainFeatureModel ::
  "env \<Rightarrow> iFeature list \<Rightarrow> iFeaturedVideo list \<Rightarrow> error + (MLR \<times> real list list \<times> real list)" where
  "trainFeatureModel e fs videos =
     (let FEATURE_KEYS = map name fs;
          X = map (\<lambda>v. recentViews v @ map (\<lambda>key. featureScore (features v) key) FEATURE_KEYS) videos;
          Y = map (\<lambda>v. ln (views v + 1)) videos
      in case MLR_new e X Y of Inl err \<Rightarrow> Inl err | Inr mlr \<Rightarrow> Inr (mlr, X, Y))"

section \<open>The worst predictions\<close>

text \<open>
  \<^verbatim>\<open>getWorstPredictions(videos, mlr, X, Y)\<close>. Reading \<^verbatim>\<open>Y[i][0]\<close> beyond the end of \<^verbatim>\<open>Y\<close>
  and reading \<^verbatim>\<open>videos[idx].title\<close> beyond the end of \<^verbatim>\<open>videos\<close> throw a TypeError. The
  comparator \<^verbatim>\<open>(a, b) => b - a\<close> sorts in decreasing order; the number of entries kept
  is the literal 20.
\<close>

definition worstIndices :: "real list \<Rightarrow> nat option list" where
  "worstIndices diffs' =
     (let sortedDiffs = sort_key (\<lambda>d. - d) diffs';
          worstDiffs = take 20 sortedDiffs
      in map (\<lambda>d. indexOf diffs' d) worstDiffs)"

definition prediction :: "iFeaturedVideo list \<Rightarrow> real list \<Rightarrow> real list \<Rightarrow> nat option \<Rightarrow> iPrediction option" where
  "prediction videos predictions Y oidx =
     (case oidx of None \<Rightarrow> None
      | Some idx \<Rightarrow>
          if idx < length videos
          then Some \<lparr> title_p = title (videos ! idx),
                      actual = exp (Y ! idx) - 1,
                      predicted = exp (predictions ! idx) - 1,
                      diff = \<bar>exp (predictions ! idx) - exp (Y ! idx)\<bar>,
                      delta = predictions ! idx - Y ! idx \<rparr>
          else None)"

definition getWorstPredictions ::
  "env \<Rightarrow> iFeaturedVideo list \<Rightarrow> MLR \<Rightarrow> real list list \<Rightarrow> real list \<Rightarrow> error + iPrediction list" where
  "getWorstPredictions e videos mlr X Y =
     (case MLR_predict e mlr X of Inl err \<Rightarrow> Inl err
      | Inr predictions \<Rightarrow>
          if length Y < length predictions
          then Inl (TypeError ''Cannot read properties of undefined (reading 0)'')
          else
            let diffs' = map (\<lambda>(pred, y). \<bar>pred - y\<bar>) (zip predictions Y)
            in (case those (map (prediction videos predictions Y) (worstIndices diffs')) of
                  None \<Rightarrow> Inl (TypeError ''Cannot read properties of undefined (reading title)'')
                | Some ps \<Rightarrow> Inr ps))"

section \<open>Validation errors\<close>

text \<open>
  \<^verbatim>\<open>reportLogErrors(predLog, actualLog)\<close> of \<^verbatim>\<open>utils/utils.ts\<close>: the four running sums of
  the loop are the state of a fold over the paired entries. The field \<^verbatim>\<open>mlr\<close> of the
  result (the weights formatted for the log) and the file written are left out. Where the
  source divides by \<^verbatim>\<open>n = 0\<close> it gets NaN; here the quotient is 0. Both models are
  evaluated on the same videos, so the comparison of two such averages is false either way.
\<close>

record iResults =
  totalLogError :: real
  totalViewsError :: real
  averageLogError :: real
  averageViewsError :: real
  typicalFactor :: real
  averagePredictedViews :: real
  averageActualViews :: real
  videoCount :: nat

definition logErrorSums :: "real list \<Rightarrow> real list \<Rightarrow> real \<times> real \<times> real \<times> real" where
  "logErrorSums predLog actualLog =
     foldl (\<lambda>(sumAbsLogError, sumAbsViewsError, sumPredViews, sumActualViews) (p, a).
              (sumAbsLogError + \<bar>p - a\<bar>,
               sumAbsViewsError + \<bar>exp p - exp a\<bar>,
               sumPredViews + exp p,
               sumActualViews + exp a))
       (0, 0, 0, 0) (zip predLog actualLog)"

definition reportLogErrors :: "real list \<Rightarrow> real list \<Rightarrow> error + iResults" where
  "reportLogErrors predLog actualLog =
     (if length predLog \<noteq> length actualLog then Inl (Error ''Length mismatch'')
      else
        let n = length predLog in
        case logErrorSums predLog actualLog of
          (sumAbsLogError, sumAbsViewsError, sumPredViews, sumActualViews) \<Rightarrow>
            Inr \<lparr> totalLogError = sumAbsLogError,
                  totalViewsError = sumAbsViewsError,
                  averageLogError = sumAbsLogError / real n,
                  averageViewsError = sumAbsViewsError / real n,
                  typicalFactor = exp (sumAbsLogError / real n),
                  averagePredictedViews = sumPredViews / real n,
                  averageActualViews = sumActualViews / real n,
                  videoCount = n \<rparr>)"

section \<open>The batching loop of the scorer\<close>

text \<open>
  \<^verbatim>\<open>rankVideos(videos, features, ollamaModel)\<close> of \<^verbatim>\<open>2.Rank.ts\<close>. The \<^verbatim>\<open>while\<close> loop has no
  bound of its own, so the model counts fuel: one unit per evaluation of the loop
  condition, \<open>None\<close> when it is used up. The loop state is the array \<^verbatim>\<open>rankings\<close>, the
  counter \<^verbatim>\<open>failures\<close> and the number of client calls made.
\<close>

definition MAX_TRIES :: nat where
  "MAX_TRIES = 3"

fun rankLoop ::
  "nat \<Rightarrow> client \<Rightarrow> (string \<Rightarrow> string) \<Rightarrow> ('a iVideo_scheme) list \<Rightarrow> iFeature list \<Rightarrow> string option \<Rightarrow> nat
     \<Rightarrow> iRanking list \<Rightarrow> nat \<Rightarrow> nat \<Rightarrow> iRanking list outcome" where
  "rankLoop 0 llm nfkc videos fs ollamaModel batchSize rankings failures calls = None"
| "rankLoop (Suc fuel) llm nfkc videos fs ollamaModel batchSize rankings failures calls =
     (if \<not> length rankings < length videos then Some (Inr rankings)
      else
        let unrankedVideos = filter (\<lambda>v. find (\<lambda>r. title_r r = title v) rankings = None) videos
        in if length unrankedVideos = 0 then Some (Inr rankings)
           else if length unrankedVideos < batchSize \<and> failures \<ge> MAX_TRIES
           then Some (Inl (Error ''Max ranking retries exceeded.''))
           else
             let failures' = (if length unrankedVideos < batchSize then failures + 1 else failures);
                 batch = take batchSize unrankedVideos
             in (case llm ollamaModel calls (map title batch) fs of
                   Inl err \<Rightarrow> Some (Inl err)
                 | Inr batchRankings \<Rightarrow>
                     let validRankings =
                           filter (\<lambda>br. find (\<lambda>v. nfkc (title v) = nfkc (title_r br)) batch \<noteq> None)
                             batchRankings
                     in rankLoop fuel llm nfkc videos fs ollamaModel batchSize
                          (rankings @ validRankings) failures' (Suc calls)))"

definition rankVideos ::
  "nat \<Rightarrow> client \<Rightarrow> (string \<Rightarrow> string) \<Rightarrow> ('a iVideo_scheme) list \<Rightarrow> iFeature list \<Rightarrow> string option
     \<Rightarrow> iRanking list outcome" where
  "rankVideos fuel llm nfkc videos fs ollamaModel =
     (let batchSize = (if ollamaModel \<noteq> None then 10 else if length fs = 1 then 40 else 20)
      in rankLoop fuel llm nfkc videos fs ollamaModel batchSize [] 0 0)"

section \<open>One iteration: \<^verbatim>\<open>reflexionStep\<close>\<close>

text \<open>
  The value \<^verbatim>\<open>reflexionStep\<close> returns. Its fields \<^verbatim>\<open>features\<close> and \<^verbatim>\<open>videos\<close> are called
  \<open>features_s\<close> and \<open>videos_s\<close>. \<^verbatim>\<open>failedFeature\<close> is the result of an
  \<^verbatim>\<open>Array.prototype.find\<close> whose \<^verbatim>\<open>undefined\<close> the source asserts away with \<^verbatim>\<open>!\<close>; the
  assertion has no effect at run time, so the field is an option, and so are the entries
  of the array \<^verbatim>\<open>failedFeatures\<close> it is pushed to.
\<close>

record stepResult =
  previousModelResults :: iResults
  newModelResults :: iResults
  features_s :: "iFeature list"
  videos_s :: "iFeaturedVideo list"
  failedFeature :: "iFeature option"
  newFeature :: iFeature

text \<open>\<^verbatim>\<open>failedFeatures.some(f => f.name === n)\<close>: entries are visited in order until one
  matches; reading the name of an \<^verbatim>\<open>undefined\<close> entry throws.\<close>

fun someNamed :: "iFeature option list \<Rightarrow> string \<Rightarrow> error + bool" where
  "someNamed [] n = Inr False"
| "someNamed (None # fs) n = Inl (TypeError ''Cannot read properties of undefined (reading name)'')"
| "someNamed (Some f # fs) n = (if name f = n then Inr True else someNamed fs n)"

text \<open>\<^verbatim>\<open>rankings.find(r => r.title === v.title)?.features[key] || 0\<close>\<close>

definition rankedScore :: "iRanking list \<Rightarrow> string \<Rightarrow> string \<Rightarrow> real" where
  "rankedScore rankings t key =
     (case find (\<lambda>r. title_r r = t) rankings of
        None \<Rightarrow> 0
      | Some r \<Rightarrow> featureScore (features_r r) key)"

text \<open>
  \<^verbatim>\<open>reflexionStep({features, videos, failedFeatures, dir, index})\<close>. The split takes
  \<^verbatim>\<open>Math.floor(length * 0.8)\<close> videos for training, which is \<open>4 * length div 5\<close>. The three
  files written at the end are left out.
\<close>

definition reflexionStep ::
  "env \<Rightarrow> nat \<Rightarrow> iFeature list \<Rightarrow> iFeaturedVideo list \<Rightarrow> iFeature option list \<Rightarrow> nat
     \<Rightarrow> stepResult outcome" where
  "reflexionStep e fuel fs videos failedFeatures index =
     (let shuffledData = shuffle e index videos;
          trainingSize = (length shuffledData * 4) div 5;
          training = take trainingSize shuffledData;
          validation = drop trainingSize shuffledData
      in
      andThen (Some (trainFeatureModel e fs training)) (\<lambda>(mlr, X, Y).
      andThen (Some (updateFeatures fs mlr)) (\<lambda>(bestFeatures, worstFeature).
      andThen (Some (getWorstPredictions e training mlr X Y)) (\<lambda>worstPredictions.
      andThen (Some (someNamed failedFeatures (name worstFeature))) (\<lambda>hasWorstFeature.
      let fullFailedFeatures =
            (if hasWorstFeature then failedFeatures else failedFeatures @ [Some worstFeature])
      in
      andThen (Some (addFeature e index bestFeatures worstPredictions fullFailedFeatures)) (\<lambda>newFeature.
      andThen (rankVideos fuel (LLMClient e index 0) (normalize e) training [newFeature] None) (\<lambda>newRankings.
      let updatedFeatures = bestFeatures @ [newFeature];
          newVideos = map (\<lambda>v. v\<lparr>features := (features v)
                        (name newFeature \<mapsto> rankedScore newRankings (title v) (name newFeature))\<rparr>) training
      in
      andThen (Some (trainFeatureModel e updatedFeatures newVideos)) (\<lambda>(newModel, X', Y').
      let validation_Y = map (\<lambda>v. ln (views v + 1)) validation;
          previousModel_X = map (\<lambda>v. recentViews v @ map (\<lambda>f. featureScore (features v) (name f)) fs) validation
      in
      andThen (Some (MLR_predict e mlr previousModel_X)) (\<lambda>previousModel_predictions.
      andThen (Some (reportLogErrors previousModel_predictions validation_Y)) (\<lambda>previousModelResults.
      andThen (rankVideos fuel (LLMClient e index 1) (normalize e) validation [newFeature] None) (\<lambda>validation_rankings.
      let validationVideos = map (\<lambda>v. v\<lparr>features := (features v)
                        (name newFeature \<mapsto> rankedScore validation_rankings (title v) (name newFeature))\<rparr>) validation;
          newModel_X = map (\<lambda>v. recentViews v @ map (\<lambda>f. featureScore (features v) (name f)) updatedFeatures)
                         validationVideos
      in
      andThen (Some (MLR_predict e newModel newModel_X)) (\<lambda>newModel_predictions.
      andThen (Some (reportLogErrors newModel_predictions validation_Y)) (\<lambda>newModelResults.
      let failedFeature = find (\<lambda>f. \<not> list_ex (\<lambda>uf. name uf = name f) updatedFeatures) fs
      in Some (Inr \<lparr> previousModelResults = previousModelResults,
                      newModelResults = newModelResults,
                      features_s = updatedFeatures,
                      videos_s = concat [newVideos, validationVideos],
                      failedFeature = failedFeature,
                      newFeature = newFeature \<rparr>))))))))))))))"

section \<open>The loop: \<^verbatim>\<open>runReflexion\<close>\<close>

text \<open>
  The variables the loop of \<^verbatim>\<open>runReflexion\<close> updates: \<^verbatim>\<open>features\<close> (here \<open>features_l\<close>),
  \<^verbatim>\<open>featuredVideos\<close> and the array \<^verbatim>\<open>failedFeatures\<close>.
\<close>

record loopState =
  features_l :: "iFeature list"
  featuredVideos :: "iFeaturedVideo list"
  failedFeatures :: "iFeature option list"

text \<open>
  The statements of the \<^verbatim>\<open>try\<close> block after \<^verbatim>\<open>reflexionStep\<close> has returned. (The
  \<^verbatim>\<open>console.log\<close> of the \<^verbatim>\<open>else\<close> branch reads the name of every failed feature and throws
  on an \<^verbatim>\<open>undefined\<close> entry; that happens after the last assignment and the \<^verbatim>\<open>catch\<close>
  block only logs, so the state left behind is the same.)
\<close>

definition applyResults :: "loopState \<Rightarrow> stepResult \<Rightarrow> loopState" where
  "applyResults st results =
     (let improved = averageLogError (newModelResults results)
                       < averageLogError (previousModelResults results)
      in if improved
         then \<lparr> features_l = features_s results,
                featuredVideos = videos_s results,
                failedFeatures = failedFeatures st @ [failedFeature results] \<rparr>
         else \<lparr> features_l = features_l st,
                featuredVideos = videos_s results,
                failedFeatures = failedFeatures st @ [Some (newFeature results)] \<rparr>)"

text \<open>The body of the \<^verbatim>\<open>for\<close> loop: an exception of the step is caught and logged, an
  await that never settles stops the run.\<close>

definition iteration :: "env \<Rightarrow> nat \<Rightarrow> loopState \<Rightarrow> nat \<Rightarrow> loopState option" where
  "iteration e fuel st index =
     (case reflexionStep e fuel (features_l st) (featuredVideos st) (failedFeatures st) index of
        None \<Rightarrow> None
      | Some (Inl err) \<Rightarrow> Some st
      | Some (Inr results) \<Rightarrow> Some (applyResults st results))"

function reflexionLoop :: "env \<Rightarrow> nat \<Rightarrow> loopState \<Rightarrow> nat \<Rightarrow> loopState option" where
  "reflexionLoop e fuel st index =
     (if index < 10
      then (case iteration e fuel st index of
              None \<Rightarrow> None
            | Some st' \<Rightarrow> reflexionLoop e fuel st' (Suc index))
      else Some st)"
  by pat_completeness auto
termination
  by (relation "measure (\<lambda>(e, fuel, st, index). 10 - index)") auto

text \<open>
  \<^verbatim>\<open>runReflexion\<close> from the point where the bootstrap \<^verbatim>\<open>featureVideos\<close> (two language-model
  calls) has returned the initial features and the featured videos. After the loop, outside
  the \<^verbatim>\<open>try\<close>, the last \<^verbatim>\<open>console.log\<close> reads the name of every failed feature: an
  \<^verbatim>\<open>undefined\<close> entry makes it throw, and the run rejects instead of returning. (The two
  files written before it are left out.)
\<close>

definition runReflexion ::
  "env \<Rightarrow> nat \<Rightarrow> iFeature list \<Rightarrow> iFeaturedVideo list \<Rightarrow> (iFeature list \<times> iFeaturedVideo list) outcome" where
  "runReflexion e fuel fs featuredVideos0 =
     (case reflexionLoop e fuel
             \<lparr> features_l = fs, featuredVideos = featuredVideos0, failedFeatures = [] \<rparr> 0 of
        None \<Rightarrow> None
      | Some st \<Rightarrow>
          if None \<in> set (failedFeatures st)
          then Some (Inl (TypeError ''Cannot read properties of undefined (reading name)''))
          else Some (Inr (features_l st, featuredVideos st)))"

text \<open>The states the loop can pass through from a given one.\<close>

inductive reachable :: "env \<Rightarrow> nat \<Rightarrow> loopState \<Rightarrow> loopState \<Rightarrow> bool" for e fuel st0 where
  start: "reachable e fuel st0 st0"
| step: "reachable e fuel st0 st \<Longrightarrow> iteration e fuel st index = Some st' \<Longrightarrow> reachable e fuel st0 st'"

section \<open>Abbreviations for the values of one iteration\<close>

text \<open>
  Names for expressions that \<^verbatim>\<open>reflexionStep\<close> writes out: the two parts of the shuffled
  videos, a video with the score of the new feature added, the input rows of a feature
  list, and the logarithmic targets.
\<close>

abbreviation trainingSplit :: "env \<Rightarrow> nat \<Rightarrow> iFeaturedVideo list \<Rightarrow> iFeaturedVideo list" where
  "trainingSplit e index videos \<equiv>
     take (length (shuffle e index videos) * 4 div 5) (shuffle e index videos)"

abbreviation validationSplit :: "env \<Rightarrow> nat \<Rightarrow> iFeaturedVideo list \<Rightarrow> iFeaturedVideo list" where
  "validationSplit e index videos \<equiv>
     drop (length (shuffle e index videos) * 4 div 5) (shuffle e index videos)"

abbreviation withScore :: "iFeature \<Rightarrow> iRanking list \<Rightarrow> iFeaturedVideo \<Rightarrow> iFeaturedVideo" where
  "withScore nf rankings v \<equiv>
     v\<lparr>features := (features v)(name nf \<mapsto> rankedScore rankings (title v) (name nf))\<rparr>"

abbreviation inputRows :: "iFeature list \<Rightarrow> iFeaturedVideo list \<Rightarrow> real list list" where
  "inputRows fs vs \<equiv> map (\<lambda>v. recentViews v @ map (\<lambda>f. featureScore (features v) (name f)) fs) vs"

abbreviation logViews :: "iFeaturedVideo list \<Rightarrow> real list" where
  "logViews vs \<equiv> map (\<lambda>v. ln (views v + 1)) vs"

section \<open>The specification's words\<close>

text \<open>The mean absolute residual of predictions against targets, both in the scale of the
  model (the logarithm of the views).\<close>

definition meanAbsoluteResidual :: "real list \<Rightarrow> real list \<Rightarrow> real" where
  "meanAbsoluteResidual preds targets =
     (\<Sum>i<length targets. \<bar>preds ! i - targets ! i\<bar>) / real (length targets)"

text \<open>
  The contract of the proposer (section 6 of the specification): the name of the feature
  it returns is the name of none of the features it was given, active or rejected.
\<close>

definition proposerContract :: "env \<Rightarrow> bool" where
  "proposerContract e \<longleftrightarrow>
     (\<forall>index best wp failed nf.
        addFeature e index best wp failed = Inr nf \<longrightarrow>
          (\<forall>f\<in>set best. name f \<noteq> name nf) \<and>
          (\<forall>f. Some f \<in> set failed \<longrightarrow> name f \<noteq> name nf))"

text \<open>
  The invariant of the loop, for \<open>K\<close> active features: their number and the distinctness
  of their names, a history without \<^verbatim>\<open>undefined\<close> entries, and no name shared between an
  active and a rejected feature.
\<close>

definition loopInvariant :: "nat \<Rightarrow> loopState \<Rightarrow> bool" where
  "loopInvariant K st \<longleftrightarrow>
     length (features_l st) = K \<and> distinct (map name (features_l st)) \<and>
     None \<notin> set (failedFeatures st) \<and>
     (\<forall>f\<in>set (features_l st). \<forall>g. Some g \<in> set (failedFeatures st) \<longrightarrow> name f \<noteq> name g)"

section \<open>Concrete inputs\<close>

text \<open>Two features, as in Scenario A of the specification.\<close>

definition f_len :: iFeature where
  "f_len = \<lparr> name = ''len'', summary = ''title length'', description = ''how long the title is'' \<rparr>"

definition f_caps :: iFeature where
  "f_caps = \<lparr> name = ''caps'', summary = ''capital letters'', description = ''share of capital letters'' \<rparr>"

text \<open>A weight vector for two features: five weights of the recent views, the weights of
  \<open>len\<close> and \<open>caps\<close>, and one last entry.\<close>

definition weights8 :: MLR where
  "weights8 = \<lparr> weights = [0, 0, 0, 0, 0, 1 / 10, 5, 1] \<rparr>"

text \<open>A video without views whose recent videos had none either, scored on \<open>len\<close> and
  \<open>caps\<close>.\<close>

definition video :: "string \<Rightarrow> real \<Rightarrow> real \<Rightarrow> iFeaturedVideo" where
  "video t l c =
     \<lparr> vid = t, title = t, views = 0, likes = 0, comments = 0, date = ''2025-01-01'',
       duration = 60, recentViews = [0, 0, 0, 0, 0],
       features = [''len'' \<mapsto> l, ''caps'' \<mapsto> c] \<rparr>"

text \<open>
  An environment to run the loop in: the shuffle keeps the order, training always yields
  the weights above, a prediction is the last entry of the input row (the score of the last
  feature), the proposer is a given function of the iteration index and the features it
  receives, the client
  scores every title it is sent with a given score, and titles are in normal form.
\<close>

definition demoEnv :: "(nat \<Rightarrow> iFeature list \<Rightarrow> iFeature option list \<Rightarrow> error + iFeature) \<Rightarrow> real \<Rightarrow> env" where
  "demoEnv proposer score =
     \<lparr> shuffle = (\<lambda>index vs. vs),
       MLR_new = (\<lambda>X Y. Inr weights8),
       MLR_predict = (\<lambda>mlr X. Inr (map last X)),
       addFeature = (\<lambda>index best wp failed. proposer index best failed),
       LLMClient = (\<lambda>index site model calls titles fs.
          Inr (map (\<lambda>t. \<lparr> title_r = t, features_r = [name (hd fs) \<mapsto> score] \<rparr>) titles)),
       normalize = (\<lambda>s. s) \<rparr>"

definition f_hook :: iFeature where
  "f_hook = \<lparr> name = ''hook'', summary = ''opening hook'', description = ''the title opens with a hook'' \<rparr>"

text \<open>A proposer that honours its contract: the name it returns is longer than every name
  it was given.\<close>

definition freshName :: "string list \<Rightarrow> string" where
  "freshName names = replicate (Suc (foldr (\<lambda>n m. max (length n) m) names 0)) (CHR ''x'')"

definition freshFeature :: "nat \<Rightarrow> iFeature list \<Rightarrow> iFeature option list \<Rightarrow> error + iFeature" where
  "freshFeature index best failed = Inr
     \<lparr> name = freshName (map name best
                @ concat (map (\<lambda>x. case x of None \<Rightarrow> [] | Some f \<Rightarrow> [name f]) failed)),
       summary = ''new'', description = ''a feature not seen before'' \<rparr>"

text \<open>Proposers that return one feature whatever they are given, one that throws, and
  one that throws in the first iteration only.\<close>

definition always :: "iFeature \<Rightarrow> nat \<Rightarrow> iFeature list \<Rightarrow> iFeature option list \<Rightarrow> error + iFeature" where
  "always f index best failed = Inr f"

definition unavailable :: "nat \<Rightarrow> iFeature list \<Rightarrow> iFeature option list \<Rightarrow> error + iFeature" where
  "unavailable index best failed = Inl (Error ''The model is overloaded.'')"

definition firstCallFails :: "nat \<Rightarrow> iFeature list \<Rightarrow> iFeature option list \<Rightarrow> error + iFeature" where
  "firstCallFails index best failed =
     (if index = 0 then Inl (Error ''The model is overloaded.'') else Inr f_hook)"

definition demoState :: loopState where
  "demoState = \<lparr> features_l = [f_len, f_caps],
                  featuredVideos = [video ''a'' 1 1, video ''b'' 1 1],
                  failedFeatures = [] \<rparr>"

text \<open>What \<^verbatim>\<open>reportLogErrors\<close> returns for one video without views and the prediction \<open>x\<close>.\<close>

definition oneVideoResults :: "real \<Rightarrow> iResults" where
  "oneVideoResults x =
     \<lparr> totalLogError = \<bar>x\<bar>, totalViewsError = \<bar>exp x - 1\<bar>,
       averageLogError = \<bar>x\<bar>, averageViewsError = \<bar>exp x - 1\<bar>,
       typicalFactor = exp \<bar>x\<bar>, averagePredictedViews = exp x,
       averageActualViews = 1, videoCount = 1 \<rparr>"

text \<open>What the step returns in that environment from \<open>demoState\<close>, when the proposer
  returns \<open>nf\<close> and the client scores it \<open>s\<close>.\<close>

definition demoResult :: "iFeature \<Rightarrow> real \<Rightarrow> stepResult" where
  "demoResult nf s =
     \<lparr> previousModelResults = oneVideoResults 1,
       newModelResults = oneVideoResults s,
       features_s = [f_caps, nf],
       videos_s = [(video ''a'' 1 1)\<lparr>features := (features (video ''a'' 1 1))(name nf \<mapsto> s)\<rparr>,
                   (video ''b'' 1 1)\<lparr>features := (features (video ''b'' 1 1))(name nf \<mapsto> s)\<rparr>],
       failedFeature = find (\<lambda>f. \<not> list_ex (\<lambda>uf. name uf = name f) [f_caps, nf]) [f_len, f_caps],
       newFeature = nf \<rparr>"

text \<open>Proposals whose names are taken: a second feature called \<open>len\<close> (the name of the
  feature the first iteration drops) and a second feature called \<open>caps\<close> (the name of the
  feature it keeps).\<close>

definition f_len2 :: iFeature where
  "f_len2 = \<lparr> name = ''len'', summary = ''length again'', description = ''the length of the title, once more'' \<rparr>"

definition f_caps2 :: iFeature where
  "f_caps2 = \<lparr> name = ''caps'', summary = ''capitals again'', description = ''capital letters, once more'' \<rparr>"

text \<open>The worst predictions of the first iteration from \<open>demoState\<close>: the one training video,
  predicted at its score for \<open>caps\<close>.\<close>

definition demoWorst :: "iPrediction list" where
  "demoWorst = [\<lparr> title_p = ''a'', actual = 0, predicted = exp 1 - 1, diff = \<bar>exp 1 - 1\<bar>, delta = 1 \<rparr>]"

text \<open>What \<open>freshFeature\<close> proposes when given \<open>caps\<close> as the kept feature and \<open>len\<close> as the
  history.\<close>

definition f_fresh :: iFeature where
  "f_fresh = \<lparr> name = ''xxxxx'', summary = ''new'', description = ''a feature not seen before'' \<rparr>"

text \<open>A client that answers every batch with the empty array, and forty videos.\<close>

definition silentClient :: client where
  "silentClient model calls titles fs = Inr []"

definition fortyVideos :: "iFeaturedVideo list" where
  "fortyVideos = map (\<lambda>i. video (replicate (Suc i) (CHR ''v'')) 0 0) [0 ..< 40]"

text \<open>A client that answers every batch with two rankings of its first title.\<close>

definition echoClient :: client where
  "echoClient model calls titles fs =
     Inr [\<lparr> title_r = hd titles, features_r = [name (hd fs) \<mapsto> 5] \<rparr>,
          \<lparr> title_r = hd titles, features_r = [name (hd fs) \<mapsto> 5] \<rparr>]"

text \<open>Scenario B of the specification: five videos whose predictions miss the target 0 by
  \<open>-2\<close>, \<open>0.5\<close>, \<open>3\<close>, \<open>-0.1\<close> and \<open>1\<close> (in \<open>demoEnv\<close> a prediction is the last entry of the
  row).\<close>

definition scenarioVideos :: "iFeaturedVideo list" where
  "scenarioVideos = map (\<lambda>t. video t 0 0) [''v0'', ''v1'', ''v2'', ''v3'', ''v4'']"

definition scenarioX :: "real list list" where
  "scenarioX = [[- 2], [1 / 2], [3], [- 1 / 10], [1]]"

definition scenarioY :: "real list" where
  "scenarioY = [0, 0, 0, 0, 0]"

section \<open>The least important feature\<close>

lemma featureCoefficients_eq:
  "featureCoefficients mlr = take (length (weights mlr) - 6) (drop 5 (weights mlr))"
proof -
  have a: "tl (take m (drop 4 w)) = take (m - 1) (drop 5 w)" for m and w :: "real list"
    by (simp add: tl_take tl_drop drop_Suc[symmetric] numeral_eq_Suc drop_tl)
  show ?thesis
  proof (cases "length (weights mlr) < 5")
    case True
    then show ?thesis
      unfolding featureCoefficients_def slice_def Let_def
      by (auto simp: min_def max_def)
  next
    case False
    then have "slice (weights mlr) 4 (int (length (weights mlr)) - 1)
          = take (length (weights mlr) - 5) (drop 4 (weights mlr))"
      unfolding slice_def Let_def by (auto simp: min_def max_def nat_diff_distrib')
    then show ?thesis
      unfolding featureCoefficients_def by (simp add: a)
  qed
qed

lemma filter_index_drop:
  "map fst (filter (\<lambda>(f, j). j \<noteq> i) (zip fs [k ..< k + length fs]))
     = (if i < k then fs else take (i - k) fs @ drop (Suc (i - k)) fs)"
proof (induction fs arbitrary: k)
  case Nil
  show ?case by simp
next
  case (Cons x xs)
  have "[k ..< k + Suc n] = k # [Suc k ..< Suc k + n]" for n
    by (simp add: upt_conv_Cons del: upt_Suc)
  then have z: "zip (x # xs) [k ..< k + length (x # xs)] = (x, k) # zip xs [Suc k ..< Suc k + length xs]"
    by simp
  consider "i < k" | "i = k" | "k < i" by linarith
  then show ?case
  proof cases
    case 1
    then show ?thesis unfolding z using Cons[of "Suc k"] by simp
  next
    case 2
    then show ?thesis unfolding z using Cons[of "Suc k"] by simp
  next
    case 3
    then obtain d where d: "i - k = Suc d" "i - Suc k = d"
      by (metis Suc_diff_Suc diff_Suc_eq_diff_pred diff_Suc_1)
    from 3 show ?thesis unfolding z using Cons[of "Suc k"] by (simp add: d)
  qed
qed

lemma leastIdx_fold:
  fixes v :: "nat \<Rightarrow> real"
  defines "g \<equiv> \<lambda>m. foldl (\<lambda>minIdx idx. if v idx < v minIdx then idx else minIdx) 0 [0 ..< m]"
  shows "g (Suc m) < Suc m \<and> (\<forall>j<Suc m. v (g (Suc m)) \<le> v j) \<and> (\<forall>j<g (Suc m). v (g (Suc m)) < v j)"
proof (induction m)
  case 0
  show ?case by (simp add: g_def)
next
  case (Suc m)
  have st: "g (Suc (Suc m)) = (if v (Suc m) < v (g (Suc m)) then Suc m else g (Suc m))"
    by (simp add: g_def)
  show ?case
  proof (cases "v (Suc m) < v (g (Suc m))")
    case True
    with Suc st show ?thesis by (auto simp: less_Suc_eq) 
  next
    case False
    with Suc st show ?thesis by (auto simp: less_Suc_eq)
  qed
qed

lemma leastFeatureIdx_min:
  assumes "arr \<noteq> []"
  shows "leastFeatureIdx arr < length arr"
    and "j < length arr \<Longrightarrow> snd (arr ! leastFeatureIdx arr) \<le> snd (arr ! j)"
    and "j < leastFeatureIdx arr \<Longrightarrow> snd (arr ! leastFeatureIdx arr) < snd (arr ! j)"
proof -
  from assms obtain m where m: "length arr = Suc m" by (cases arr) auto
  note f = leastIdx_fold[of "\<lambda>i. snd (arr ! i)" m, folded m, folded leastFeatureIdx_def]
  show "leastFeatureIdx arr < length arr" using f by simp
  show "j < length arr \<Longrightarrow> snd (arr ! leastFeatureIdx arr) \<le> snd (arr ! j)" using f by simp
  show "j < leastFeatureIdx arr \<Longrightarrow> snd (arr ! leastFeatureIdx arr) < snd (arr ! j)" using f by simp
qed

lemma featuresValue_nth:
  assumes "length (weights mlr) = length fs + 6" and "j < length fs"
  shows "featuresValue fs mlr ! j = (name (fs ! j), \<bar>weights mlr ! (5 + j)\<bar>)"
  using assms by (simp add: featuresValue_def featureCoefficients_eq)

lemma length_featuresValue: "length (featuresValue fs mlr) = length fs"
  by (simp add: featuresValue_def)

lemma updateFeatures_Inr_iff:
  "updateFeatures fs mlr = Inr (b, w) \<longleftrightarrow>
     fs \<noteq> [] \<and> length (weights mlr) = length fs + 6 \<and>
     w = fs ! leastFeatureIdx (featuresValue fs mlr) \<and>
     b = take (leastFeatureIdx (featuresValue fs mlr)) fs
           @ drop (Suc (leastFeatureIdx (featuresValue fs mlr))) fs"
proof (cases "fs = []")
  case True
  then show ?thesis
    by (auto simp: updateFeatures_def Let_def)
next
  case False
  then have lt: "leastFeatureIdx (featuresValue fs mlr) < length fs"
    using leastFeatureIdx_min(1)[of "featuresValue fs mlr"] length_featuresValue[of fs mlr]
    by (metis length_0_conv)
  have len: "length (featureCoefficients mlr) = length fs \<longleftrightarrow> length (weights mlr) = length fs + 6"
    using False by (cases fs) (auto simp: featureCoefficients_eq)
  show ?thesis
    using False lt len filter_index_drop[of "leastFeatureIdx (featuresValue fs mlr)" fs 0]
    by (auto simp: updateFeatures_def Let_def)
qed

text \<open>
  Claim C2, as the code has it. \<^verbatim>\<open>updateFeatures\<close> takes no auxiliary-covariate count: it
  skips the first five weights and the last one. Whenever it returns, the weight vector
  has \<open>K + 6\<close> entries for \<open>K\<close> features, the importance of feature \<open>j\<close> is the absolute
  value of the weight at position \<open>5 + j\<close>, and the feature it drops is the first one of
  least importance; the features it keeps are the others, in their order.
\<close>

theorem updateFeatures_least_importance:
  assumes "updateFeatures fs mlr = Inr (bestFeatures, worstFeature)"
  shows "length (weights mlr) = length fs + 6 \<and>
         (\<exists>i<length fs. i = leastFeatureIdx (featuresValue fs mlr) \<and>
            worstFeature = fs ! i \<and> bestFeatures = take i fs @ drop (Suc i) fs \<and>
            (\<forall>j<length fs. featuresValue fs mlr ! j = (name (fs ! j), \<bar>weights mlr ! (5 + j)\<bar>)) \<and>
            (\<forall>j<length fs. \<bar>weights mlr ! (5 + i)\<bar> \<le> \<bar>weights mlr ! (5 + j)\<bar>) \<and>
            (\<forall>j<i. \<bar>weights mlr ! (5 + i)\<bar> < \<bar>weights mlr ! (5 + j)\<bar>))"
proof -
  let ?i = "leastFeatureIdx (featuresValue fs mlr)"
  from assms have ne: "fs \<noteq> []" and len: "length (weights mlr) = length fs + 6"
    and w: "worstFeature = fs ! ?i" and b: "bestFeatures = take ?i fs @ drop (Suc ?i) fs"
    by (simp_all add: updateFeatures_Inr_iff)
  have arr: "featuresValue fs mlr \<noteq> []"
    using ne length_featuresValue[of fs mlr] by (metis length_0_conv)
  have lt: "?i < length fs"
    using leastFeatureIdx_min(1)[OF arr] by (simp add: length_featuresValue)
  have nth: "\<forall>j<length fs. featuresValue fs mlr ! j = (name (fs ! j), \<bar>weights mlr ! (5 + j)\<bar>)"
    using featuresValue_nth[OF len] by blast
  have le: "\<forall>j<length fs. \<bar>weights mlr ! (5 + ?i)\<bar> \<le> \<bar>weights mlr ! (5 + j)\<bar>"
  proof (intro allI impI)
    fix j assume j: "j < length fs"
    from leastFeatureIdx_min(2)[OF arr, of j] j
    have "snd (featuresValue fs mlr ! ?i) \<le> snd (featuresValue fs mlr ! j)"
      by (simp add: length_featuresValue)
    then show "\<bar>weights mlr ! (5 + ?i)\<bar> \<le> \<bar>weights mlr ! (5 + j)\<bar>"
      using nth j lt by simp
  qed
  have less: "\<forall>j<?i. \<bar>weights mlr ! (5 + ?i)\<bar> < \<bar>weights mlr ! (5 + j)\<bar>"
  proof (intro allI impI)
    fix j assume j: "j < ?i"
    from leastFeatureIdx_min(3)[OF arr j]
    have "snd (featuresValue fs mlr ! ?i) < snd (featuresValue fs mlr ! j)" .
    then show "\<bar>weights mlr ! (5 + ?i)\<bar> < \<bar>weights mlr ! (5 + j)\<bar>"
      using nth j lt by simp
  qed
  from len lt w b nth le less show ?thesis by blast
qed

lemma leastFeatureIdx_two: "leastFeatureIdx (featuresValue [a, b] weights8) = 0"
  by (simp add: leastFeatureIdx_def featuresValue_def featureCoefficients_eq weights8_def upt_conv_Cons)

lemma updateFeatures_two: "updateFeatures [a, b] weights8 = Inr ([b], a)"
proof -
  have "length (weights weights8) = 8" by (simp add: weights8_def)
  then show ?thesis by (simp add: updateFeatures_Inr_iff leastFeatureIdx_two)
qed

lemma leastFeatureIdx_weights8: "leastFeatureIdx (featuresValue [f_len, f_caps] weights8) = 0"
  by (simp add: leastFeatureIdx_def featuresValue_def featureCoefficients_eq f_len_def f_caps_def weights8_def upt_conv_Cons)

text \<open>
  Scenario A of claim C2 as stated: with the three coefficients \<open>[1.0, 0.1, 5.0]\<close> and
  the features \<open>len\<close> and \<open>caps\<close> the code returns no least important feature; it throws.
\<close>

theorem scenarioA_throws:
  "updateFeatures [f_len, f_caps] \<lparr> weights = [1, 1 / 10, 5] \<rparr> = Inl (Error ''Feature length mismatch'')"
  by (simp add: updateFeatures_def featureCoefficients_eq)

lemma updateFeatures_weights8: "updateFeatures [f_len, f_caps] weights8 = Inr ([f_caps], f_len)"
proof -
  have "length (weights weights8) = 8" by (simp add: weights8_def)
  then show ?thesis by (simp add: updateFeatures_Inr_iff leastFeatureIdx_weights8)
qed

text \<open>
  The scenario with the weights where the code reads them: \<open>len\<close> (index 0, importance
  0.1) is dropped and \<open>caps\<close> is kept.
\<close>

theorem updateFeatures_least_importance_witness:
  "updateFeatures [f_len, f_caps] weights8 = Inr ([f_caps], f_len)
   \<and> leastFeatureIdx (featuresValue [f_len, f_caps] weights8) = 0
   \<and> featuresValue [f_len, f_caps] weights8 ! 0 = (''len'', 1 / 10)"
  using updateFeatures_least_importance[OF updateFeatures_weights8] updateFeatures_weights8 leastFeatureIdx_weights8
  by (auto simp: f_len_def weights8_def)


text \<open>
  With the coefficients ordered as the claim has them (intercept first, then five auxiliary
  weights, then \<open>len\<close> at 0.1 and \<open>caps\<close> at 5), the claim's index makes \<open>len\<close> the least
  important feature; the code reads the fifth auxiliary weight as the importance of \<open>len\<close>
  and the weight of \<open>len\<close> as that of \<open>caps\<close>, and drops \<open>caps\<close>.
\<close>

lemma updateFeatures_intercept_first:
  "updateFeatures [f_len, f_caps] \<lparr> weights = [1, 0, 0, 0, 0, 9, 1 / 10, 5] \<rparr> = Inr ([f_len], f_caps)"
proof -
  have "leastFeatureIdx (featuresValue [f_len, f_caps] \<lparr> weights = [1, 0, 0, 0, 0, 9, 1 / 10, 5] \<rparr>) = 1"
    by (simp add: leastFeatureIdx_def featuresValue_def featureCoefficients_eq f_len_def f_caps_def
        upt_conv_Cons)
  then show ?thesis by (simp add: updateFeatures_Inr_iff)
qed

section \<open>Outcomes and the step\<close>

lemma andThen_simps [simp]:
  "andThen None f = None"
  "andThen (Some (Inl err)) f = Some (Inl err)"
  "andThen (Some (Inr x)) f = f x"
  by (simp_all add: andThen_def)

lemma andThen_Inr_iff:
  "andThen m f = Some (Inr r) \<longleftrightarrow> (\<exists>x. m = Some (Inr x) \<and> f x = Some (Inr r))"
  by (auto simp: andThen_def split: option.splits sum.splits)

text \<open>What a returned step result says about the calls that produced it.\<close>

lemma reflexionStep_Inr_elim:
  assumes "reflexionStep e fuel fs videos failed index = Some (Inr r)"
  shows "\<exists>mlr X Y best worst wp has newRankings newModel X' Y' prevP valRankings newP.
     trainFeatureModel e fs (trainingSplit e index videos) = Inr (mlr, X, Y) \<and>
     updateFeatures fs mlr = Inr (best, worst) \<and>
     getWorstPredictions e (trainingSplit e index videos) mlr X Y = Inr wp \<and>
     someNamed failed (name worst) = Inr has \<and>
     addFeature e index best wp (if has then failed else failed @ [Some worst]) = Inr (newFeature r) \<and>
     rankVideos fuel (LLMClient e index 0) (normalize e) (trainingSplit e index videos) [newFeature r] None
       = Some (Inr newRankings) \<and>
     trainFeatureModel e (best @ [newFeature r])
         (map (withScore (newFeature r) newRankings) (trainingSplit e index videos))
       = Inr (newModel, X', Y') \<and>
     MLR_predict e mlr (inputRows fs (validationSplit e index videos)) = Inr prevP \<and>
     reportLogErrors prevP (logViews (validationSplit e index videos)) = Inr (previousModelResults r) \<and>
     rankVideos fuel (LLMClient e index 1) (normalize e) (validationSplit e index videos) [newFeature r] None
       = Some (Inr valRankings) \<and>
     MLR_predict e newModel
         (inputRows (best @ [newFeature r])
            (map (withScore (newFeature r) valRankings) (validationSplit e index videos)))
       = Inr newP \<and>
     reportLogErrors newP (logViews (validationSplit e index videos)) = Inr (newModelResults r) \<and>
     features_s r = best @ [newFeature r] \<and>
     videos_s r = map (withScore (newFeature r) newRankings) (trainingSplit e index videos)
                  @ map (withScore (newFeature r) valRankings) (validationSplit e index videos) \<and>
     failedFeature r = find (\<lambda>f. \<not> list_ex (\<lambda>uf. name uf = name f) (best @ [newFeature r])) fs"
  using assms unfolding reflexionStep_def Let_def
  by (clarsimp simp: andThen_Inr_iff comp_def split del: if_split cong: if_cong)

lemma reflexionStep_eval:
  assumes "trainFeatureModel e fs (trainingSplit e index videos) = Inr (mlr, X, Y)"
    and "updateFeatures fs mlr = Inr (best, worst)"
    and "getWorstPredictions e (trainingSplit e index videos) mlr X Y = Inr wp"
    and "someNamed failed (name worst) = Inr has"
    and "addFeature e index best wp (if has then failed else failed @ [Some worst]) = Inr nf"
    and "rankVideos fuel (LLMClient e index 0) (normalize e) (trainingSplit e index videos) [nf] None
           = Some (Inr newRankings)"
    and "trainFeatureModel e (best @ [nf]) (map (withScore nf newRankings) (trainingSplit e index videos))
           = Inr (newModel, X', Y')"
    and "MLR_predict e mlr (inputRows fs (validationSplit e index videos)) = Inr prevP"
    and "reportLogErrors prevP (logViews (validationSplit e index videos)) = Inr prevRes"
    and "rankVideos fuel (LLMClient e index 1) (normalize e) (validationSplit e index videos) [nf] None
           = Some (Inr valRankings)"
    and "MLR_predict e newModel
           (inputRows (best @ [nf]) (map (withScore nf valRankings) (validationSplit e index videos)))
           = Inr newP"
    and "reportLogErrors newP (logViews (validationSplit e index videos)) = Inr newRes"
  shows "reflexionStep e fuel fs videos failed index =
     Some (Inr \<lparr> previousModelResults = prevRes, newModelResults = newRes,
                  features_s = best @ [nf],
                  videos_s = map (withScore nf newRankings) (trainingSplit e index videos)
                             @ map (withScore nf valRankings) (validationSplit e index videos),
                  failedFeature = find (\<lambda>f. \<not> list_ex (\<lambda>uf. name uf = name f) (best @ [nf])) fs,
                  newFeature = nf \<rparr>)"
  unfolding reflexionStep_def Let_def
  using assms by (simp add: comp_def)


lemma reflexionStep_proposer_throws:
  assumes "trainFeatureModel e fs (trainingSplit e index videos) = Inr (mlr, X, Y)"
    and "updateFeatures fs mlr = Inr (best, worst)"
    and "getWorstPredictions e (trainingSplit e index videos) mlr X Y = Inr wp"
    and "someNamed failed (name worst) = Inr has"
    and "addFeature e index best wp (if has then failed else failed @ [Some worst]) = Inl err"
  shows "reflexionStep e fuel fs videos failed index = Some (Inl err)"
  unfolding reflexionStep_def Let_def
  using assms by simp

lemma reflexionStep_history_throws:
  assumes "trainFeatureModel e fs (trainingSplit e index videos) = Inr (mlr, X, Y)"
    and "updateFeatures fs mlr = Inr (best, worst)"
    and "getWorstPredictions e (trainingSplit e index videos) mlr X Y = Inr wp"
    and "someNamed failed (name worst) = Inl err"
  shows "reflexionStep e fuel fs videos failed index = Some (Inl err)"
  unfolding reflexionStep_def Let_def
  using assms by simp

lemma iteration_returned:
  assumes "reflexionStep e fuel (features_l st) (featuredVideos st) (failedFeatures st) index = Some (Inr r)"
  shows "iteration e fuel st index = Some (applyResults st r)"
  using assms by (simp add: iteration_def)

lemma iteration_threw:
  assumes "reflexionStep e fuel (features_l st) (featuredVideos st) (failedFeatures st) index = Some (Inl err)"
  shows "iteration e fuel st index = Some st"
  using assms by (simp add: iteration_def)

declare reflexionLoop.simps [simp del]

lemma reflexionLoop_stuck:
  assumes "\<And>index. iteration e fuel st index = Some st"
  shows "reflexionLoop e fuel st index = Some st"
proof (induction "10 - index" arbitrary: index)
  case 0
  then show ?case by (simp add: reflexionLoop.simps[of e fuel st index])
next
  case (Suc k)
  then have "index < 10" and "k = 10 - Suc index" by simp_all
  with Suc.hyps(1)[of "Suc index"] assms[of index] show ?case
    by (simp add: reflexionLoop.simps[of e fuel st index])
qed

section \<open>The loop in the demonstration environment\<close>

lemma demoEnv_simps [simp]:
  "shuffle (demoEnv P s) index vs = vs"
  "MLR_new (demoEnv P s) X Y = Inr weights8"
  "MLR_predict (demoEnv P s) mlr X = Inr (map last X)"
  "addFeature (demoEnv P s) index best wp failed = P index best failed"
  "LLMClient (demoEnv P s) index site model calls titles fs
     = Inr (map (\<lambda>t. \<lparr> title_r = t, features_r = [name (hd fs) \<mapsto> s] \<rparr>) titles)"
  "normalize (demoEnv P s) = (\<lambda>x. x)"
  by (simp_all add: demoEnv_def)

lemma demo_train:
  "trainFeatureModel (demoEnv P s) fs vs = Inr (weights8, inputRows fs vs, logViews vs)"
  by (simp add: trainFeatureModel_def comp_def)

lemma demo_rank:
  "rankVideos 2 (LLMClient (demoEnv P s) index site) (normalize (demoEnv P s)) [video t l c] [nf] None
     = Some (Inr [\<lparr> title_r = t, features_r = [name nf \<mapsto> s] \<rparr>])"
  by (simp add: rankVideos_def numeral_2_eq_2 video_def MAX_TRIES_def)

lemma demo_worst:
  "getWorstPredictions (demoEnv P s) [video ''a'' 1 1] m
      (inputRows [f_len, f_caps] [video ''a'' 1 1]) (logViews [video ''a'' 1 1]) = Inr demoWorst"
  by (simp add: getWorstPredictions_def worstIndices_def prediction_def demoWorst_def
      featureScore_def video_def f_len_def f_caps_def)

lemma demo_splits:
  "trainingSplit (demoEnv P s) index [video ''a'' 1 1, video ''b'' 1 1] = [video ''a'' 1 1]"
  "validationSplit (demoEnv P s) index [video ''a'' 1 1, video ''b'' 1 1] = [video ''b'' 1 1]"
  by simp_all

lemma reportLogErrors_one:
  "reportLogErrors [x] (logViews [video t l c]) = Inr (oneVideoResults x)"
  by (simp add: reportLogErrors_def logErrorSums_def oneVideoResults_def video_def)

lemma demo_withScore:
  "withScore nf [\<lparr> title_r = t, features_r = [name nf \<mapsto> s] \<rparr>] (video t l c)
     = (video t l c)\<lparr>features := (features (video t l c))(name nf \<mapsto> s)\<rparr>"
  by (simp add: rankedScore_def featureScore_def video_def)

lemma demo_step_at:
  assumes P: "P index [f_caps] [Some f_len] = Inr nf"
  shows "reflexionStep (demoEnv P s) 2 [f_len, f_caps] [video ''a'' 1 1, video ''b'' 1 1] [] index
     = Some (Inr (demoResult nf s))"
proof -
  let ?E = "demoEnv P s" and ?nf = nf
  let ?vs = "[video ''a'' 1 1, video ''b'' 1 1]"
  have tr: "trainingSplit ?E index ?vs = [video ''a'' 1 1]"
    and va: "validationSplit ?E index ?vs = [video ''b'' 1 1]"
    by simp_all
  have wp: "getWorstPredictions ?E [video ''a'' 1 1] weights8
      (inputRows [f_len, f_caps] [video ''a'' 1 1]) (logViews [video ''a'' 1 1]) = Inr demoWorst"
    by (rule demo_worst)
  have prevP: "MLR_predict ?E weights8 (inputRows [f_len, f_caps] [video ''b'' 1 1]) = Inr [1]"
    by (simp add: featureScore_def video_def f_caps_def)
  have newP: "MLR_predict ?E weights8
      (inputRows ([f_caps] @ [?nf])
         (map (withScore ?nf [\<lparr> title_r = ''b'', features_r = [name ?nf \<mapsto> s] \<rparr>]) [video ''b'' 1 1]))
      = Inr [s]"
    by (simp add: featureScore_def rankedScore_def video_def)
  have "reflexionStep ?E 2 [f_len, f_caps] ?vs [] index =
     Some (Inr \<lparr> previousModelResults = oneVideoResults 1, newModelResults = oneVideoResults s,
                  features_s = [f_caps] @ [?nf],
                  videos_s = map (withScore ?nf [\<lparr> title_r = ''a'', features_r = [name ?nf \<mapsto> s] \<rparr>]) (trainingSplit ?E index ?vs)
                             @ map (withScore ?nf [\<lparr> title_r = ''b'', features_r = [name ?nf \<mapsto> s] \<rparr>]) (validationSplit ?E index ?vs),
                  failedFeature = find (\<lambda>f. \<not> list_ex (\<lambda>uf. name uf = name f) ([f_caps] @ [?nf])) [f_len, f_caps],
                  newFeature = ?nf \<rparr>)"
  proof (rule reflexionStep_eval)
    show "trainFeatureModel ?E [f_len, f_caps] (trainingSplit ?E index ?vs)
        = Inr (weights8, inputRows [f_len, f_caps] [video ''a'' 1 1], logViews [video ''a'' 1 1])"
      unfolding tr by (rule demo_train)
    show "updateFeatures [f_len, f_caps] weights8 = Inr ([f_caps], f_len)"
      by (rule updateFeatures_weights8)
    show "getWorstPredictions ?E (trainingSplit ?E index ?vs) weights8
        (inputRows [f_len, f_caps] [video ''a'' 1 1]) (logViews [video ''a'' 1 1]) = Inr demoWorst"
      unfolding tr by (rule wp)
    show "someNamed [] (name f_len) = Inr False" by simp
    show "addFeature ?E index [f_caps] demoWorst (if False then [] else [] @ [Some f_len]) = Inr ?nf"
      using P by simp
    show "rankVideos 2 (LLMClient ?E index 0) (normalize ?E) (trainingSplit ?E index ?vs) [?nf] None
        = Some (Inr [\<lparr> title_r = ''a'', features_r = [name ?nf \<mapsto> s] \<rparr>])"
      unfolding tr by (rule demo_rank)
    show "trainFeatureModel ?E ([f_caps] @ [?nf])
          (map (withScore ?nf [\<lparr> title_r = ''a'', features_r = [name ?nf \<mapsto> s] \<rparr>]) (trainingSplit ?E index ?vs))
        = Inr (weights8, inputRows ([f_caps] @ [?nf]) (map (withScore ?nf [\<lparr> title_r = ''a'', features_r = [name ?nf \<mapsto> s] \<rparr>]) (trainingSplit ?E index ?vs)),
               logViews (map (withScore ?nf [\<lparr> title_r = ''a'', features_r = [name ?nf \<mapsto> s] \<rparr>]) (trainingSplit ?E index ?vs)))"
      by (rule demo_train)
    show "MLR_predict ?E weights8 (inputRows [f_len, f_caps] (validationSplit ?E index ?vs)) = Inr [1]"
      unfolding va by (rule prevP)
    show "reportLogErrors [1] (logViews (validationSplit ?E index ?vs)) = Inr (oneVideoResults 1)"
      unfolding va by (rule reportLogErrors_one)
    show "rankVideos 2 (LLMClient ?E index 1) (normalize ?E) (validationSplit ?E index ?vs) [?nf] None
        = Some (Inr [\<lparr> title_r = ''b'', features_r = [name ?nf \<mapsto> s] \<rparr>])"
      unfolding va by (rule demo_rank)
    show "MLR_predict ?E weights8
        (inputRows ([f_caps] @ [?nf])
           (map (withScore ?nf [\<lparr> title_r = ''b'', features_r = [name ?nf \<mapsto> s] \<rparr>]) (validationSplit ?E index ?vs)))
        = Inr [s]"
      unfolding va by (rule newP)
    show "reportLogErrors [s] (logViews (validationSplit ?E index ?vs)) = Inr (oneVideoResults s)"
      unfolding va by (rule reportLogErrors_one)
  qed
  also have "\<dots> = Some (Inr (demoResult ?nf s))"
    unfolding tr va demoResult_def by (simp add: demo_withScore)
  finally show ?thesis .
qed

lemma demo_step:
  assumes "P 0 [f_caps] [Some f_len] = Inr nf"
  shows "reflexionStep (demoEnv P s) 2 [f_len, f_caps] [video ''a'' 1 1, video ''b'' 1 1] [] 0
     = Some (Inr (demoResult nf s))"
  using assms by (rule demo_step_at)

lemma demo_iteration_at:
  assumes "P index [f_caps] [Some f_len] = Inr nf"
  shows "iteration (demoEnv P s) 2 demoState index = Some (applyResults demoState (demoResult nf s))"
  using demo_step_at[of P index nf s] assms by (simp add: iteration_def demoState_def)

lemma demo_iteration:
  assumes "P 0 [f_caps] [Some f_len] = Inr nf"
  shows "iteration (demoEnv P s) 2 demoState 0 = Some (applyResults demoState (demoResult nf s))"
  using demo_step[of P nf s] assms by (simp add: iteration_def demoState_def)

lemma demo_accept:
  assumes "\<bar>s\<bar> < 1"
  shows "applyResults demoState (demoResult nf s)
     = \<lparr> features_l = [f_caps, nf], featuredVideos = videos_s (demoResult nf s),
         failedFeatures = [failedFeature (demoResult nf s)] \<rparr>"
  using assms by (simp add: applyResults_def demoResult_def oneVideoResults_def demoState_def)

lemma demo_reject:
  assumes "\<not> \<bar>s\<bar> < 1"
  shows "applyResults demoState (demoResult nf s)
     = \<lparr> features_l = [f_len, f_caps], featuredVideos = videos_s (demoResult nf s),
         failedFeatures = [Some nf] \<rparr>"
  using assms by (simp add: applyResults_def demoResult_def oneVideoResults_def demoState_def)


lemma demo_step_throws_at:
  assumes P: "P index [f_caps] [Some f_len] = Inl err"
  shows "reflexionStep (demoEnv P s) 2 [f_len, f_caps] [video ''a'' 1 1, video ''b'' 1 1] [] index
     = Some (Inl err)"
proof (rule reflexionStep_proposer_throws)
  show "trainFeatureModel (demoEnv P s) [f_len, f_caps]
      (trainingSplit (demoEnv P s) index [video ''a'' 1 1, video ''b'' 1 1])
      = Inr (weights8, inputRows [f_len, f_caps] [video ''a'' 1 1], logViews [video ''a'' 1 1])"
    unfolding demo_splits by (rule demo_train)
  show "updateFeatures [f_len, f_caps] weights8 = Inr ([f_caps], f_len)"
    by (rule updateFeatures_weights8)
  show "getWorstPredictions (demoEnv P s)
      (trainingSplit (demoEnv P s) index [video ''a'' 1 1, video ''b'' 1 1]) weights8
      (inputRows [f_len, f_caps] [video ''a'' 1 1]) (logViews [video ''a'' 1 1]) = Inr demoWorst"
    unfolding demo_splits by (rule demo_worst)
  show "someNamed [] (name f_len) = Inr False" by simp
  show "addFeature (demoEnv P s) index [f_caps] demoWorst (if False then [] else [] @ [Some f_len])
      = Inl err"
    using P by simp
qed

lemma demo_step_throws:
  "reflexionStep (demoEnv unavailable s) 2 [f_len, f_caps] [video ''a'' 1 1, video ''b'' 1 1] [] 0
     = Some (Inl (Error ''The model is overloaded.''))"
  by (rule demo_step_throws_at) (simp add: unavailable_def)

text \<open>In this environment a history that starts with an \<^verbatim>\<open>undefined\<close> entry makes every
  step over two features and two videos throw.\<close>

lemma demo_worst_one:
  "\<exists>wp. getWorstPredictions (demoEnv P s) [v] m [row] [y] = Inr wp"
  by (simp add: getWorstPredictions_def worstIndices_def prediction_def)

lemma demo_history_throws:
  "reflexionStep (demoEnv P s) fuel [a, b] [v, w] (None # failed) index
     = Some (Inl (TypeError ''Cannot read properties of undefined (reading name)''))"
proof -
  have tr: "trainingSplit (demoEnv P s) index [v, w] = [v]" by simp
  obtain wp where wp: "getWorstPredictions (demoEnv P s) [v] weights8 (inputRows [a, b] [v]) (logViews [v]) = Inr wp"
    using demo_worst_one[of P s v weights8] by auto
  show ?thesis
  proof (rule reflexionStep_history_throws)
    show "trainFeatureModel (demoEnv P s) [a, b] (trainingSplit (demoEnv P s) index [v, w])
        = Inr (weights8, inputRows [a, b] [v], logViews [v])"
      unfolding tr by (rule demo_train)
    show "updateFeatures [a, b] weights8 = Inr ([b], a)" by (rule updateFeatures_two)
    show "getWorstPredictions (demoEnv P s) (trainingSplit (demoEnv P s) index [v, w]) weights8
        (inputRows [a, b] [v]) (logViews [v]) = Inr wp"
      unfolding tr by (rule wp)
    show "someNamed (None # failed) (name a)
        = Inl (TypeError ''Cannot read properties of undefined (reading name)'')"
      by simp
  qed
qed

section \<open>The worst predictions\<close>

lemma indexOf_Some:
  "x \<in> set xs \<Longrightarrow> \<exists>i. indexOf xs x = Some i \<and> i < length xs \<and> xs ! i = x"
  by (induction xs) auto

lemma indexOf_nth:
  "distinct xs \<Longrightarrow> i < length xs \<Longrightarrow> indexOf xs (xs ! i) = Some i"
proof (induction xs arbitrary: i)
  case Nil
  then show ?case by simp
next
  case (Cons x xs)
  then show ?case by (cases i) auto
qed

lemma those_map_Some:
  "\<forall>x\<in>set xs. f x = Some (g x) \<Longrightarrow> those (map f xs) = Some (map g xs)"
  by (induction xs) auto

text \<open>Two equal absolute residuals: \<^verbatim>\<open>indexOf\<close> finds the first position twice.\<close>

lemma worstIndices_tie: "worstIndices [1, 1] = [Some 0, Some 0]"
  by (simp add: worstIndices_def)

lemma worstIndices_any:
  fixes D :: "real list"
  shows "\<exists>idxs. worstIndices D = map Some idxs \<and> length idxs = min 20 (length D) \<and>
     (\<forall>i\<in>set idxs. i < length D) \<and>
     map (\<lambda>i. D ! i) idxs = take 20 (sort_key (\<lambda>d. - d) D) \<and>
     sorted_wrt (\<lambda>i j. D ! j \<le> D ! i) idxs \<and>
     (distinct D \<longrightarrow>
        distinct idxs \<and> (\<forall>j<length D. j \<notin> set idxs \<longrightarrow> (\<forall>i\<in>set idxs. D ! j \<le> D ! i)))"
proof -
  define S where "S = sort_key (\<lambda>d. - d) D"
  define L where "L = take 20 S"
  define ix where "ix = (\<lambda>x. the (indexOf D x))"
  have setS: "set S = set D" and lenS: "length S = length D"
    by (simp_all add: S_def)
  have LD: "set L \<subseteq> set D"
    unfolding L_def using set_take_subset[of 20 S] setS by simp
  have ix: "indexOf D x = Some (ix x) \<and> ix x < length D \<and> D ! ix x = x" if "x \<in> set D" for x
    using indexOf_Some[OF that] by (auto simp: ix_def)
  have sortedS: "sorted_wrt (\<lambda>x y. y \<le> x) S"
    using sorted_sort_key[of "\<lambda>d. - d" D] by (simp add: sorted_map S_def)
  have wi: "worstIndices D = map Some (map ix L)"
    unfolding worstIndices_def Let_def S_def[symmetric] L_def[symmetric]
    using ix LD by (auto simp: subset_iff)
  have len: "length (map ix L) = min 20 (length D)"
    by (simp add: L_def lenS min.commute)
  have bound: "\<forall>i\<in>set (map ix L). i < length D"
    using ix LD by auto
  have vals: "map (\<lambda>i. D ! i) (map ix L) = take 20 (sort_key (\<lambda>d. - d) D)"
    unfolding S_def[symmetric] L_def[symmetric]
    using ix LD by (auto simp: subset_iff intro: map_idI)
  have "sorted_wrt (\<lambda>x y. y \<le> x) L"
    unfolding L_def by (rule sorted_wrt_take[OF sortedS])
  then have "sorted_wrt (\<lambda>a b. D ! ix b \<le> D ! ix a) L"
  proof (rule sorted_wrt_mono_rel[rotated])
    fix a b assume "a \<in> set L" "b \<in> set L" "b \<le> a"
    then show "D ! ix b \<le> D ! ix a" using ix[of a] ix[of b] LD by (simp add: subset_iff)
  qed
  then have sorted: "sorted_wrt (\<lambda>i j. D ! j \<le> D ! i) (map ix L)"
    by (simp add: sorted_wrt_map)
  have ties: "distinct (map ix L) \<and>
      (\<forall>j<length D. j \<notin> set (map ix L) \<longrightarrow> (\<forall>i\<in>set (map ix L). D ! j \<le> D ! i))"
    if d: "distinct D"
  proof
    have distS: "distinct S" using d by (simp add: S_def)
    have ixn: "ix (D ! i) = i" if "i < length D" for i
      using indexOf_nth[OF d that] by (simp add: ix_def)
    have inj: "inj_on ix (set L)"
    proof (rule inj_onI)
      fix a b assume "a \<in> set L" "b \<in> set L" "ix a = ix b"
      then show "a = b" using ix[of a] ix[of b] LD by (metis subsetD)
    qed
    show "distinct (map ix L)"
      using distS inj by (simp add: distinct_map L_def)
    show "\<forall>j<length D. j \<notin> set (map ix L) \<longrightarrow> (\<forall>i\<in>set (map ix L). D ! j \<le> D ! i)"
    proof (intro allI impI ballI)
      fix j i assume j: "j < length D" and nj: "j \<notin> set (map ix L)" and i: "i \<in> set (map ix L)"
      from i obtain a where a: "a \<in> set L" "i = ix a" by auto
      then have Di: "D ! i = a" using ix[of a] LD by auto
      have "D ! j \<notin> set L"
      proof
        assume "D ! j \<in> set L"
        then have "ix (D ! j) \<in> set (map ix L)" by simp
        with ixn[OF j] nj show False by simp
      qed
      moreover have "D ! j \<in> set S" using j setS by simp
      moreover have "S = L @ drop 20 S" by (simp add: L_def)
      ultimately have dj: "D ! j \<in> set (drop 20 S)"
        by (metis Un_iff set_append)
      from sortedS have "sorted_wrt (\<lambda>x y. y \<le> x) (L @ drop 20 S)"
        by (simp add: L_def)
      then have "\<forall>x\<in>set L. \<forall>y\<in>set (drop 20 S). y \<le> x"
        by (simp add: sorted_wrt_append)
      with a(1) dj show "D ! j \<le> D ! i" unfolding Di by blast
    qed
  qed
  from wi len bound vals sorted ties show ?thesis by blast
qed

text \<open>
  Claim C5, as the code has it. The number of entries kept is fixed at 20, and positions are
  recovered from values by \<^verbatim>\<open>indexOf\<close>. When the rows, the targets and the videos are
  equally many, the result has \<open>min 20 n\<close> entries; their absolute residuals (in the scale of
  the model) are the \<open>min 20 n\<close> largest of the sequence, in decreasing order. When no two
  absolute residuals are equal, the entries are different entities and no entity left out
  has a larger absolute residual than one listed.
\<close>

theorem worst_predictions_distinct_residuals:
  assumes p: "MLR_predict e mlr X = Inr predictions"
    and ly: "length predictions = length Y"
    and lv: "length videos = length Y"
  shows "\<exists>idxs.
     getWorstPredictions e videos mlr X Y
       = Inr (map (\<lambda>idx. \<lparr> title_p = title (videos ! idx),
                             actual = exp (Y ! idx) - 1,
                             predicted = exp (predictions ! idx) - 1,
                             diff = \<bar>exp (predictions ! idx) - exp (Y ! idx)\<bar>,
                             delta = predictions ! idx - Y ! idx \<rparr>) idxs) \<and>
     length idxs = min 20 (length Y) \<and> (\<forall>i\<in>set idxs. i < length Y) \<and>
     map (\<lambda>i. \<bar>predictions ! i - Y ! i\<bar>) idxs
       = take 20 (sort_key (\<lambda>d. - d) (map (\<lambda>(pred, y). \<bar>pred - y\<bar>) (zip predictions Y))) \<and>
     sorted_wrt (\<lambda>i j. \<bar>predictions ! j - Y ! j\<bar> \<le> \<bar>predictions ! i - Y ! i\<bar>) idxs \<and>
     (distinct (map (\<lambda>(pred, y). \<bar>pred - y\<bar>) (zip predictions Y)) \<longrightarrow>
        distinct idxs \<and>
        (\<forall>j<length Y. j \<notin> set idxs \<longrightarrow>
           (\<forall>i\<in>set idxs. \<bar>predictions ! j - Y ! j\<bar> \<le> \<bar>predictions ! i - Y ! i\<bar>)))"
proof -
  let ?D = "map (\<lambda>(pred, y). \<bar>pred - y\<bar>) (zip predictions Y)"
  let ?mk = "\<lambda>idx. \<lparr> title_p = title (videos ! idx),
                             actual = exp (Y ! idx) - 1,
                             predicted = exp (predictions ! idx) - 1,
                             diff = \<bar>exp (predictions ! idx) - exp (Y ! idx)\<bar>,
                             delta = predictions ! idx - Y ! idx \<rparr>"
  have lenD: "length ?D = length Y" using ly by simp
  have nthD: "?D ! i = \<bar>predictions ! i - Y ! i\<bar>" if "i < length Y" for i
    using that ly by simp
  from worstIndices_any[of ?D] obtain idxs where
    wi: "worstIndices ?D = map Some idxs"
    and len: "length idxs = min 20 (length ?D)"
    and bound: "\<forall>i\<in>set idxs. i < length ?D"
    and vals: "map (\<lambda>i. ?D ! i) idxs = take 20 (sort_key (\<lambda>d. - d) ?D)"
    and sorted: "sorted_wrt (\<lambda>i j. ?D ! j \<le> ?D ! i) idxs"
    and ties: "distinct ?D \<longrightarrow>
        distinct idxs \<and> (\<forall>j<length ?D. j \<notin> set idxs \<longrightarrow> (\<forall>i\<in>set idxs. ?D ! j \<le> ?D ! i))"
    by blast
  have b: "\<forall>i\<in>set idxs. i < length Y" using bound lenD by simp
  have "\<forall>i\<in>set idxs. prediction videos predictions Y (Some i) = Some (?mk i)"
    using b lv by (simp add: prediction_def)
  then have "those (map (prediction videos predictions Y) (map Some idxs)) = Some (map ?mk idxs)"
    using those_map_Some[of idxs "\<lambda>i. prediction videos predictions Y (Some i)" ?mk]
    by (simp add: comp_def)
  then have g: "getWorstPredictions e videos mlr X Y = Inr (map ?mk idxs)"
    using p ly by (simp add: getWorstPredictions_def wi)
  have "map (\<lambda>i. \<bar>predictions ! i - Y ! i\<bar>) idxs = map (\<lambda>i. ?D ! i) idxs"
    using b nthD by (intro map_cong) simp_all
  with vals have v: "map (\<lambda>i. \<bar>predictions ! i - Y ! i\<bar>) idxs = take 20 (sort_key (\<lambda>d. - d) ?D)"
    by simp
  have s: "sorted_wrt (\<lambda>i j. \<bar>predictions ! j - Y ! j\<bar> \<le> \<bar>predictions ! i - Y ! i\<bar>) idxs"
    using sorted
  proof (rule sorted_wrt_mono_rel[rotated])
    fix i j assume "i \<in> set idxs" "j \<in> set idxs" "?D ! j \<le> ?D ! i"
    then show "\<bar>predictions ! j - Y ! j\<bar> \<le> \<bar>predictions ! i - Y ! i\<bar>"
      using b nthD by simp
  qed
  have r: "distinct ?D \<longrightarrow> distinct idxs \<and> (\<forall>j<length Y. j \<notin> set idxs \<longrightarrow>
        (\<forall>i\<in>set idxs. \<bar>predictions ! j - Y ! j\<bar> \<le> \<bar>predictions ! i - Y ! i\<bar>))"
  proof (intro impI conjI allI ballI)
    assume d: "distinct ?D"
    with ties show "distinct idxs" by blast
    fix j i assume j: "j < length Y" "j \<notin> set idxs" and i: "i \<in> set idxs"
    with ties d lenD have "?D ! j \<le> ?D ! i" by simp
    then show "\<bar>predictions ! j - Y ! j\<bar> \<le> \<bar>predictions ! i - Y ! i\<bar>"
      using nthD[OF j(1)] nthD[of i] b i by simp
  qed
  from g len lenD b v s r show ?thesis by (intro exI[of _ idxs]) simp
qed

lemma scenario_predict:
  "MLR_predict (demoEnv P s) mlr scenarioX = Inr [- 2, 1 / 2, 3, - 1 / 10, 1]"
  by (simp add: scenarioX_def)

text \<open>
  Scenario B of claim C5 as stated asks for three entities. The code has no such parameter:
  it keeps up to 20, and on the five entities of the scenario it returns all five, in the
  order of the positions 2, 0, 4, 1, 3.
\<close>

theorem scenarioB_returns_five:
  "map_sum id (map title_p)
     (getWorstPredictions (demoEnv (always f_hook) 0) scenarioVideos weights8 scenarioX scenarioY)
   = Inr [''v2'', ''v0'', ''v4'', ''v1'', ''v3'']"
proof -
  have w: "worstIndices [2, 1 / 2, 3, 1 / 10, 1 :: real] = [Some 2, Some 0, Some 4, Some 1, Some 3]"
    by (simp add: worstIndices_def)
  show ?thesis
    by (simp add: getWorstPredictions_def scenarioX_def scenarioY_def w prediction_def
        scenarioVideos_def video_def)
qed

text \<open>The theorem at Scenario B, where the five absolute residuals differ, and at two
  videos missed by the same amount, where the first is listed twice.\<close>

theorem worst_predictions_distinct_residuals_witness:
  "MLR_predict (demoEnv (always f_hook) 0) weights8 scenarioX = Inr [- 2, 1 / 2, 3, - 1 / 10, 1]
   \<and> length [- 2, 1 / 2, 3, - 1 / 10, 1 :: real] = length scenarioY
   \<and> length scenarioVideos = length scenarioY
   \<and> distinct (map (\<lambda>(pred, y). \<bar>pred - y\<bar>) (zip [- 2, 1 / 2, 3, - 1 / 10, 1] scenarioY))
   \<and> (\<exists>idxs. map_sum id (map delta)
         (getWorstPredictions (demoEnv (always f_hook) 0) scenarioVideos weights8 scenarioX scenarioY)
           = Inr (map (\<lambda>idx. [- 2, 1 / 2, 3, - 1 / 10, 1] ! idx - scenarioY ! idx) idxs)
         \<and> length idxs = 5 \<and> distinct idxs
         \<and> map (\<lambda>i. \<bar>[- 2, 1 / 2, 3, - 1 / 10, 1] ! i - scenarioY ! i\<bar>) idxs = [3, 2, 1, 1 / 2, 1 / 10])
   \<and> (\<exists>idxs. map_sum id (map title_p)
         (getWorstPredictions (demoEnv (always f_hook) 0) [video ''a'' 1 1, video ''b'' 1 1] weights8
            [[1], [- 1]] [0, 0])
           = Inr (map (\<lambda>idx. title ([video ''a'' 1 1, video ''b'' 1 1] ! idx)) idxs)
         \<and> length idxs = 2
         \<and> map (\<lambda>i. \<bar>[1, - 1] ! i - [0, 0] ! i\<bar>) idxs = [1, 1 :: real])"
proof -
  have p: "MLR_predict (demoEnv (always f_hook) 0) weights8 scenarioX = Inr [- 2, 1 / 2, 3, - 1 / 10, 1]"
    by (rule scenario_predict)
  have ly: "length [- 2, 1 / 2, 3, - 1 / 10, 1 :: real] = length scenarioY"
    by (simp add: scenarioY_def)
  have lv: "length scenarioVideos = length scenarioY"
    by (simp add: scenarioY_def scenarioVideos_def)
  have d: "distinct (map (\<lambda>(pred, y). \<bar>pred - y\<bar>) (zip [- 2, 1 / 2, 3, - 1 / 10, 1] scenarioY))"
    by (simp add: scenarioY_def)
  have srt: "take 20 (sort_key (\<lambda>d. - d)
        (map (\<lambda>(pred, y). \<bar>pred - y\<bar>) (zip [- 2, 1 / 2, 3, - 1 / 10, 1] scenarioY)))
      = [3, 2, 1, 1 / 2, 1 / 10 :: real]"
    by (simp add: scenarioY_def)
  from worst_predictions_distinct_residuals[OF p ly lv] d
  obtain idxs where
    g: "getWorstPredictions (demoEnv (always f_hook) 0) scenarioVideos weights8 scenarioX scenarioY
       = Inr (map (\<lambda>idx. \<lparr> title_p = title (scenarioVideos ! idx),
                             actual = exp (scenarioY ! idx) - 1,
                             predicted = exp ([- 2, 1 / 2, 3, - 1 / 10, 1] ! idx) - 1,
                             diff = \<bar>exp ([- 2, 1 / 2, 3, - 1 / 10, 1] ! idx) - exp (scenarioY ! idx)\<bar>,
                             delta = [- 2, 1 / 2, 3, - 1 / 10, 1] ! idx - scenarioY ! idx \<rparr>) idxs)"
    and l: "length idxs = min 20 (length scenarioY)" and di: "distinct idxs"
    and v: "map (\<lambda>i. \<bar>[- 2, 1 / 2, 3, - 1 / 10, 1] ! i - scenarioY ! i\<bar>) idxs
       = take 20 (sort_key (\<lambda>d. - d)
           (map (\<lambda>(pred, y). \<bar>pred - y\<bar>) (zip [- 2, 1 / 2, 3, - 1 / 10, 1] scenarioY)))"
    by blast
  have "map_sum id (map delta)
         (getWorstPredictions (demoEnv (always f_hook) 0) scenarioVideos weights8 scenarioX scenarioY)
           = Inr (map (\<lambda>idx. [- 2, 1 / 2, 3, - 1 / 10, 1] ! idx - scenarioY ! idx) idxs)"
    unfolding g by (simp add: comp_def)
  moreover have "length idxs = 5" using l by (simp add: scenarioY_def)
  ultimately have first: "\<exists>idxs. map_sum id (map delta)
         (getWorstPredictions (demoEnv (always f_hook) 0) scenarioVideos weights8 scenarioX scenarioY)
           = Inr (map (\<lambda>idx. [- 2, 1 / 2, 3, - 1 / 10, 1] ! idx - scenarioY ! idx) idxs)
         \<and> length idxs = 5 \<and> distinct idxs
         \<and> map (\<lambda>i. \<bar>[- 2, 1 / 2, 3, - 1 / 10, 1] ! i - scenarioY ! i\<bar>) idxs = [3, 2, 1, 1 / 2, 1 / 10]"
    using di v srt by auto
  have p2: "MLR_predict (demoEnv (always f_hook) 0) weights8 [[1], [- 1]] = Inr [1, - 1]"
    by simp
  have srt2: "take 20 (sort_key (\<lambda>d. - d) (map (\<lambda>(pred, y). \<bar>pred - y\<bar>) (zip [1, - 1] [0, 0])))
      = [1, 1 :: real]"
    by simp
  have ly2: "length [1, - 1 :: real] = length [0, 0 :: real]" by simp
  have lv2: "length [video ''a'' 1 1, video ''b'' 1 1] = length [0, 0 :: real]" by simp
  from worst_predictions_distinct_residuals[OF p2 ly2 lv2]
  obtain idxs2 where
    g2: "getWorstPredictions (demoEnv (always f_hook) 0) [video ''a'' 1 1, video ''b'' 1 1] weights8
            [[1], [- 1]] [0, 0]
       = Inr (map (\<lambda>idx. \<lparr> title_p = title ([video ''a'' 1 1, video ''b'' 1 1] ! idx),
                             actual = exp ([0, 0] ! idx) - 1,
                             predicted = exp ([1, - 1] ! idx) - 1,
                             diff = \<bar>exp ([1, - 1] ! idx) - exp ([0, 0] ! idx)\<bar>,
                             delta = [1, - 1] ! idx - [0, 0] ! idx \<rparr>) idxs2)"
    and l2: "length idxs2 = min 20 (length [0, 0 :: real])"
    and v2: "map (\<lambda>i. \<bar>[1, - 1] ! i - [0, 0] ! i\<bar>) idxs2
       = take 20 (sort_key (\<lambda>d. - d) (map (\<lambda>(pred, y). \<bar>pred - y\<bar>) (zip [1, - 1] [0, 0 :: real])))"
    by blast
  have "map_sum id (map title_p)
         (getWorstPredictions (demoEnv (always f_hook) 0) [video ''a'' 1 1, video ''b'' 1 1] weights8
            [[1], [- 1]] [0, 0])
           = Inr (map (\<lambda>idx. title ([video ''a'' 1 1, video ''b'' 1 1] ! idx)) idxs2)"
    unfolding g2 by (simp add: comp_def)
  moreover have "length idxs2 = 2" using l2 by simp
  ultimately have second: "\<exists>idxs. map_sum id (map title_p)
         (getWorstPredictions (demoEnv (always f_hook) 0) [video ''a'' 1 1, video ''b'' 1 1] weights8
            [[1], [- 1]] [0, 0])
           = Inr (map (\<lambda>idx. title ([video ''a'' 1 1, video ''b'' 1 1] ! idx)) idxs)
         \<and> length idxs = 2
         \<and> map (\<lambda>i. \<bar>[1, - 1] ! i - [0, 0] ! i\<bar>) idxs = [1, 1 :: real]"
    using v2 srt2 by auto
  from p ly lv d first second show ?thesis by blast
qed

text \<open>The tie, evaluated: the first of the two videos is listed twice and the second not
  at all.\<close>

lemma worst_predictions_tie:
  "map_sum id (map title_p)
     (getWorstPredictions (demoEnv (always f_hook) 0) [video ''a'' 1 1, video ''b'' 1 1] weights8
        [[1], [- 1]] [0, 0])
   = Inr [''a'', ''a'']"
proof -
  have w: "worstIndices [1, 1 :: real] = [Some 0, Some 0]"
    by (simp add: worstIndices_def)
  show ?thesis
    by (simp add: getWorstPredictions_def w prediction_def video_def)
qed

section \<open>The accept/reject decision\<close>

lemma logErrorSums_acc:
  "fst (foldl (\<lambda>(sumAbsLogError, sumAbsViewsError, sumPredViews, sumActualViews) (p, a).
              (sumAbsLogError + \<bar>p - a\<bar>,
               sumAbsViewsError + \<bar>exp p - exp a\<bar>,
               sumPredViews + exp p,
               sumActualViews + exp a))
       (s1, s2, s3, s4) xs) = s1 + sum_list (map (\<lambda>(p, a). \<bar>p - a\<bar>) xs)"
  for s1 s2 s3 s4 :: real
  by (induction xs arbitrary: s1 s2 s3 s4) (auto simp: case_prod_beta)

lemma sum_list_zip_nth:
  fixes p a :: "real list"
  assumes "length p = length a"
  shows "sum_list (map (\<lambda>(p, a). \<bar>p - a\<bar>) (zip p a)) = (\<Sum>i<length a. \<bar>p ! i - a ! i\<bar>)"
proof -
  have "sum_list (map (\<lambda>(p, a). \<bar>p - a\<bar>) (zip p a))
      = (\<Sum>i = 0..<length a. map (\<lambda>(p, a). \<bar>p - a\<bar>) (zip p a) ! i)"
    using assms by (simp add: sum_list_sum_nth)
  also have "\<dots> = (\<Sum>i = 0..<length a. \<bar>p ! i - a ! i\<bar>)"
    using assms by (intro sum.cong) simp_all
  finally show ?thesis by (simp add: atLeast0LessThan)
qed

lemma reportLogErrors_average:
  assumes "reportLogErrors p a = Inr res"
  shows "length p = length a" and "averageLogError res = meanAbsoluteResidual p a"
proof -
  from assms show len: "length p = length a"
    by (auto simp: reportLogErrors_def split: if_splits)
  from assms len have "averageLogError res = fst (logErrorSums p a) / real (length p)"
    by (auto simp: reportLogErrors_def Let_def split: prod.splits)
  then show "averageLogError res = meanAbsoluteResidual p a"
    using len by (simp add: logErrorSums_def logErrorSums_acc sum_list_zip_nth meanAbsoluteResidual_def)
qed

text \<open>
  Claim C1. When the step of an iteration returns, the features after the iteration are the
  candidate set if the mean absolute residual of the new model on the validation videos
  (predictions against the logarithm of the views) is strictly smaller than that of the
  previous model on the same videos, and the features before the iteration otherwise.
\<close>

theorem acceptance_iff_strict_improvement:
  assumes "reflexionStep e fuel (features_l st) (featuredVideos st) (failedFeatures st) index = Some (Inr r)"
  shows "\<exists>mlr X Y newModel X' Y' newRankings valRankings prevP newP.
      trainFeatureModel e (features_l st) (trainingSplit e index (featuredVideos st)) = Inr (mlr, X, Y) \<and>
      trainFeatureModel e (features_s r)
          (map (withScore (newFeature r) newRankings) (trainingSplit e index (featuredVideos st)))
        = Inr (newModel, X', Y') \<and>
      MLR_predict e mlr (inputRows (features_l st) (validationSplit e index (featuredVideos st))) = Inr prevP \<and>
      MLR_predict e newModel
          (inputRows (features_s r)
             (map (withScore (newFeature r) valRankings) (validationSplit e index (featuredVideos st))))
        = Inr newP \<and>
      iteration e fuel st index = Some (applyResults st r) \<and>
      features_l (applyResults st r) =
        (if meanAbsoluteResidual newP (logViews (validationSplit e index (featuredVideos st)))
              < meanAbsoluteResidual prevP (logViews (validationSplit e index (featuredVideos st)))
         then features_s r else features_l st)"
proof -
  from reflexionStep_Inr_elim[OF assms]
  obtain mlr X Y best worst wp has newRankings newModel X' Y' prevP valRankings newP where
    t1: "trainFeatureModel e (features_l st) (trainingSplit e index (featuredVideos st)) = Inr (mlr, X, Y)"
    and t2: "trainFeatureModel e (best @ [newFeature r])
         (map (withScore (newFeature r) newRankings) (trainingSplit e index (featuredVideos st)))
       = Inr (newModel, X', Y')"
    and p1: "MLR_predict e mlr (inputRows (features_l st) (validationSplit e index (featuredVideos st))) = Inr prevP"
    and r1: "reportLogErrors prevP (logViews (validationSplit e index (featuredVideos st))) = Inr (previousModelResults r)"
    and p2: "MLR_predict e newModel
         (inputRows (best @ [newFeature r])
            (map (withScore (newFeature r) valRankings) (validationSplit e index (featuredVideos st))))
       = Inr newP"
    and r2: "reportLogErrors newP (logViews (validationSplit e index (featuredVideos st))) = Inr (newModelResults r)"
    and fs: "features_s r = best @ [newFeature r]"
    by blast
  have a1: "averageLogError (previousModelResults r)
      = meanAbsoluteResidual prevP (logViews (validationSplit e index (featuredVideos st)))"
    by (rule reportLogErrors_average(2)[OF r1])
  have a2: "averageLogError (newModelResults r)
      = meanAbsoluteResidual newP (logViews (validationSplit e index (featuredVideos st)))"
    by (rule reportLogErrors_average(2)[OF r2])
  have dec: "features_l (applyResults st r) =
        (if meanAbsoluteResidual newP (logViews (validationSplit e index (featuredVideos st)))
              < meanAbsoluteResidual prevP (logViews (validationSplit e index (featuredVideos st)))
         then features_s r else features_l st)"
    unfolding a1[symmetric] a2[symmetric] by (simp add: applyResults_def)
  from t1 t2 p1 p2 iteration_returned[OF assms] dec show ?thesis
    unfolding fs by blast
qed

text \<open>
  Two runs of the first iteration from \<open>demoState\<close>: when the new feature is scored 0 the new
  model is off by 0 and the previous one by 1, and the candidate set is installed; when it is
  scored 2 the new model is off by 2 and the features stay as they were.
\<close>

theorem acceptance_iff_strict_improvement_witness:
  "reflexionStep (demoEnv (always f_hook) 0) 2 (features_l demoState) (featuredVideos demoState)
      (failedFeatures demoState) 0 = Some (Inr (demoResult f_hook 0))
   \<and> iteration (demoEnv (always f_hook) 0) 2 demoState 0 = Some (applyResults demoState (demoResult f_hook 0))
   \<and> features_l (applyResults demoState (demoResult f_hook 0)) = [f_caps, f_hook]
   \<and> reflexionStep (demoEnv (always f_hook) 2) 2 (features_l demoState) (featuredVideos demoState)
      (failedFeatures demoState) 0 = Some (Inr (demoResult f_hook 2))
   \<and> iteration (demoEnv (always f_hook) 2) 2 demoState 0 = Some (applyResults demoState (demoResult f_hook 2))
   \<and> features_l (applyResults demoState (demoResult f_hook 2)) = [f_len, f_caps]"
proof -
  have h0: "reflexionStep (demoEnv (always f_hook) 0) 2 (features_l demoState) (featuredVideos demoState)
      (failedFeatures demoState) 0 = Some (Inr (demoResult f_hook 0))"
    using demo_step[of "always f_hook" f_hook 0] by (simp add: demoState_def always_def)
  have h2: "reflexionStep (demoEnv (always f_hook) 2) 2 (features_l demoState) (featuredVideos demoState)
      (failedFeatures demoState) 0 = Some (Inr (demoResult f_hook 2))"
    using demo_step[of "always f_hook" f_hook 2] by (simp add: demoState_def always_def)
  from acceptance_iff_strict_improvement[OF h0]
  have i0: "iteration (demoEnv (always f_hook) 0) 2 demoState 0 = Some (applyResults demoState (demoResult f_hook 0))"
    by blast
  from acceptance_iff_strict_improvement[OF h2]
  have i2: "iteration (demoEnv (always f_hook) 2) 2 demoState 0 = Some (applyResults demoState (demoResult f_hook 2))"
    by blast
  show ?thesis
    using h0 h2 i0 i2 by (simp add: demo_accept demo_reject)
qed


section \<open>The rejected-feature history\<close>

lemma someNamed_Inr:
  "someNamed failed n = Inr has \<Longrightarrow> has \<longleftrightarrow> (\<exists>f. Some f \<in> set failed \<and> name f = n)"
  by (induction failed n rule: someNamed.induct) (auto split: if_splits)

lemma someNamed_total:
  "None \<notin> set failed \<Longrightarrow> someNamed failed n = Inr (\<exists>f. Some f \<in> set failed \<and> name f = n)"
  by (induction failed n rule: someNamed.induct) auto

lemma updateFeatures_split:
  assumes "updateFeatures fs mlr = Inr (best, worst)"
  shows "\<exists>A B. fs = A @ worst # B \<and> best = A @ B"
proof -
  let ?i = "leastFeatureIdx (featuresValue fs mlr)"
  from assms have ne: "fs \<noteq> []" and w: "worst = fs ! ?i"
    and b: "best = take ?i fs @ drop (Suc ?i) fs"
    by (simp_all add: updateFeatures_Inr_iff)
  from ne have "featuresValue fs mlr \<noteq> []"
    using length_featuresValue[of fs mlr] by (metis length_0_conv)
  then have i: "?i < length fs"
    using leastFeatureIdx_min(1)[of "featuresValue fs mlr"] by (simp add: length_featuresValue)
  have "fs = take ?i fs @ worst # drop (Suc ?i) fs"
    unfolding w by (rule id_take_nth_drop[OF i])
  with b show ?thesis by blast
qed

lemma find_first:
  assumes "\<forall>a\<in>set A. \<not> P a" and "P x"
  shows "find P (A @ x # B) = Some x"
  using assms by (induction A) auto

lemma find_evicted:
  assumes "distinct (map name (A @ worst # B))" and "name nf \<noteq> name worst"
  shows "find (\<lambda>f. \<not> list_ex (\<lambda>uf. name uf = name f) ((A @ B) @ [nf])) (A @ worst # B) = Some worst"
proof (rule find_first)
  show "\<forall>a\<in>set A. \<not> \<not> list_ex (\<lambda>uf. name uf = name a) ((A @ B) @ [nf])"
    by (auto simp: list_ex_iff)
  show "\<not> list_ex (\<lambda>uf. name uf = name worst) ((A @ B) @ [nf])"
    using assms by (auto simp: list_ex_iff image_iff)
qed

text \<open>
  What the decision does to the history. When the step returns, the candidate set is the
  kept features followed by the proposed one. On accept the candidate set becomes the
  active set and the history receives the result of the \<^verbatim>\<open>find\<close> of the step: the first
  active feature whose name does not occur in the candidate set, \<open>None\<close> (the
  \<^verbatim>\<open>undefined\<close> of the source) when there is none. With active features of distinct names
  and a proposed name other than the evicted one, it is the evicted feature. On reject the
  history receives the proposed feature and the active set stays.
\<close>

lemma history_after_decision:
  assumes step: "reflexionStep e fuel (features_l st) (featuredVideos st) (failedFeatures st) index = Some (Inr r)"
  shows "\<exists>mlr X Y best worst.
      trainFeatureModel e (features_l st) (trainingSplit e index (featuredVideos st)) = Inr (mlr, X, Y) \<and>
      updateFeatures (features_l st) mlr = Inr (best, worst) \<and>
      features_s r = best @ [newFeature r] \<and>
      iteration e fuel st index = Some (applyResults st r) \<and>
      (if averageLogError (newModelResults r) < averageLogError (previousModelResults r)
       then features_l (applyResults st r) = features_s r \<and>
            failedFeatures (applyResults st r)
              = failedFeatures st @ [find (\<lambda>f. name f \<notin> name ` set (features_s r)) (features_l st)] \<and>
            (distinct (map name (features_l st)) \<and> name (newFeature r) \<noteq> name worst \<longrightarrow>
               failedFeatures (applyResults st r) = failedFeatures st @ [Some worst])
       else features_l (applyResults st r) = features_l st \<and>
            failedFeatures (applyResults st r) = failedFeatures st @ [Some (newFeature r)])"
proof -
  from reflexionStep_Inr_elim[OF step]
  obtain mlr X Y best worst where
    t1: "trainFeatureModel e (features_l st) (trainingSplit e index (featuredVideos st)) = Inr (mlr, X, Y)"
    and u: "updateFeatures (features_l st) mlr = Inr (best, worst)"
    and fs: "features_s r = best @ [newFeature r]"
    and ff: "failedFeature r
       = find (\<lambda>f. \<not> list_ex (\<lambda>uf. name uf = name f) (best @ [newFeature r])) (features_l st)"
    by blast
  from updateFeatures_split[OF u] obtain A B where
    AB: "features_l st = A @ worst # B" "best = A @ B" by blast
  have ff': "failedFeature r = find (\<lambda>f. name f \<notin> name ` set (features_s r)) (features_l st)"
    unfolding ff fs by (rule arg_cong2[where f = find]) (auto simp: list_ex_iff fun_eq_iff image_iff)
  have ev: "failedFeature r = Some worst"
    if "distinct (map name (features_l st))" "name (newFeature r) \<noteq> name worst"
    unfolding ff AB using find_evicted[of A worst B "newFeature r"] that AB by simp
  have acc: "averageLogError (newModelResults r) < averageLogError (previousModelResults r) \<Longrightarrow>
      features_l (applyResults st r) = features_s r \<and>
      failedFeatures (applyResults st r) = failedFeatures st @ [failedFeature r]"
    by (simp add: applyResults_def)
  have rej: "\<not> averageLogError (newModelResults r) < averageLogError (previousModelResults r) \<Longrightarrow>
      features_l (applyResults st r) = features_l st \<and>
      failedFeatures (applyResults st r) = failedFeatures st @ [Some (newFeature r)]"
    by (simp add: applyResults_def)
  show ?thesis
  proof (intro exI conjI)
    show "trainFeatureModel e (features_l st) (trainingSplit e index (featuredVideos st)) = Inr (mlr, X, Y)"
      by (rule t1)
    show "updateFeatures (features_l st) mlr = Inr (best, worst)" by (rule u)
    show "features_s r = best @ [newFeature r]" by (rule fs)
    show "iteration e fuel st index = Some (applyResults st r)" by (rule iteration_returned[OF step])
    show "if averageLogError (newModelResults r) < averageLogError (previousModelResults r)
       then features_l (applyResults st r) = features_s r \<and>
            failedFeatures (applyResults st r)
              = failedFeatures st @ [find (\<lambda>f. name f \<notin> name ` set (features_s r)) (features_l st)] \<and>
            (distinct (map name (features_l st)) \<and> name (newFeature r) \<noteq> name worst \<longrightarrow>
               failedFeatures (applyResults st r) = failedFeatures st @ [Some worst])
       else features_l (applyResults st r) = features_l st \<and>
            failedFeatures (applyResults st r) = failedFeatures st @ [Some (newFeature r)]"
      using acc rej ev ff' by (cases "averageLogError (newModelResults r) < averageLogError (previousModelResults r)") auto
  qed
qed

text \<open>
  The first iteration from \<open>demoState\<close> with the proposal \<open>hook\<close>: accepted (score 0), the
  history receives the evicted \<open>len\<close>; rejected (score 2), it receives \<open>hook\<close>.
\<close>

lemma history_after_decision_demo:
  "iteration (demoEnv (always f_hook) 0) 2 demoState 0
     = Some \<lparr> features_l = [f_caps, f_hook], featuredVideos = videos_s (demoResult f_hook 0),
              failedFeatures = [Some f_len] \<rparr>
   \<and> iteration (demoEnv (always f_hook) 2) 2 demoState 0
     = Some \<lparr> features_l = [f_len, f_caps], featuredVideos = videos_s (demoResult f_hook 2),
              failedFeatures = [Some f_hook] \<rparr>"
proof -
  have i0: "iteration (demoEnv (always f_hook) 0) 2 demoState 0 = Some (applyResults demoState (demoResult f_hook 0))"
    by (rule demo_iteration) (simp add: always_def)
  have i2: "iteration (demoEnv (always f_hook) 2) 2 demoState 0 = Some (applyResults demoState (demoResult f_hook 2))"
    by (rule demo_iteration) (simp add: always_def)
  have ff: "failedFeature (demoResult f_hook 0) = Some f_len"
    by (simp add: demoResult_def f_len_def f_caps_def f_hook_def)
  show ?thesis
    using i0 i2 ff by (simp add: demo_accept demo_reject)
qed

text \<open>
  Claim C3 fails on the code. The step does not hand the evicted feature to the loop: it
  looks it up again by name, and asserts (\<^verbatim>\<open>!\<close>) that the lookup succeeds. When the proposer
  returns a feature called like the one being evicted, every active name occurs in the
  candidate set and the lookup yields \<^verbatim>\<open>undefined\<close>. Here the first iteration from
  \<open>demoState\<close> evicts \<open>len\<close>, the proposal is called \<open>len\<close> too and is accepted, and the
  history receives \<^verbatim>\<open>undefined\<close> instead of the evicted feature.
\<close>

theorem evicted_feature_not_remembered:
  "updateFeatures (features_l demoState) weights8 = Inr ([f_caps], f_len)
   \<and> iteration (demoEnv (always f_len2) 0) 2 demoState 0
       = Some \<lparr> features_l = [f_caps, f_len2],
                featuredVideos = videos_s (demoResult f_len2 0),
                failedFeatures = [None] \<rparr>"
proof -
  have ff: "failedFeature (demoResult f_len2 0) = None"
    by (simp add: demoResult_def f_len_def f_caps_def f_len2_def)
  have u: "updateFeatures (features_l demoState) weights8 = Inr ([f_caps], f_len)"
    by (simp add: demoState_def updateFeatures_weights8)
  have "iteration (demoEnv (always f_len2) 0) 2 demoState 0
      = Some (applyResults demoState (demoResult f_len2 0))"
    by (rule demo_iteration) (simp add: always_def)
  then show ?thesis
    using ff u by (simp add: demo_accept)
qed

text \<open>
  What follows in that run: with \<^verbatim>\<open>undefined\<close> in the history, the \<^verbatim>\<open>some\<close> of every later
  step throws, no later iteration changes anything, and after the loop the last
  \<^verbatim>\<open>console.log\<close> throws, so the run rejects and returns no features.
\<close>

lemma run_rejects_after_undefined:
  "runReflexion (demoEnv (always f_len2) 0) 2 [f_len, f_caps] [video ''a'' 1 1, video ''b'' 1 1]
     = Some (Inl (TypeError ''Cannot read properties of undefined (reading name)''))"
proof -
  let ?E = "demoEnv (always f_len2) 0"
  let ?st1 = "\<lparr> features_l = [f_caps, f_len2],
                 featuredVideos = videos_s (demoResult f_len2 0),
                 failedFeatures = [None] \<rparr>"
  have ff: "failedFeature (demoResult f_len2 0) = None"
    by (simp add: demoResult_def f_len_def f_caps_def f_len2_def)
  have "iteration ?E 2 demoState 0 = Some (applyResults demoState (demoResult f_len2 0))"
    by (rule demo_iteration) (simp add: always_def)
  then have it0: "iteration ?E 2 demoState 0 = Some ?st1"
    using ff by (simp add: demo_accept)
  have stuck: "iteration ?E 2 ?st1 index = Some ?st1" for index
    by (simp add: iteration_def demoResult_def demo_history_throws)
  have "reflexionLoop ?E 2 ?st1 (Suc 0) = Some ?st1"
    by (rule reflexionLoop_stuck[OF stuck])
  then have "reflexionLoop ?E 2 demoState 0 = Some ?st1"
    using it0 by (simp add: reflexionLoop.simps[of ?E 2 demoState 0])
  then show ?thesis
    by (simp add: runReflexion_def demoState_def[symmetric])
qed

section \<open>An iteration that throws\<close>

text \<open>The loop from an index below 10, unfolded once.\<close>

lemma reflexionLoop_unfold:
  "index < 10 \<Longrightarrow>
     reflexionLoop e fuel st index =
       (case iteration e fuel st index of None \<Rightarrow> None
        | Some st' \<Rightarrow> reflexionLoop e fuel st' (Suc index))"
  by (simp add: reflexionLoop.simps[of e fuel st index])

text \<open>
  Claim C6. When the step of an iteration throws (any of its calls: training, the analysis
  of the errors, the proposer, the scorer, retraining, validation), the exception is caught:
  the iteration ends with the features, the rejected-feature history and the featured videos
  as they were, and the loop goes on. If the index was the last one the loop ends with that
  state; otherwise the iteration of the next index is run on that state, and the loop
  continues from its result (and does not end if that iteration never ends).
\<close>

theorem step_exception_skips_iteration:
  assumes "reflexionStep e fuel (features_l st) (featuredVideos st) (failedFeatures st) index = Some (Inl err)"
  shows "iteration e fuel st index = Some st \<and>
     (index < 10 \<longrightarrow>
        reflexionLoop e fuel st index =
          (if Suc index < 10
           then (case iteration e fuel st (Suc index) of
                   None \<Rightarrow> None
                 | Some st' \<Rightarrow> reflexionLoop e fuel st' (Suc (Suc index)))
           else Some st))"
proof (intro conjI impI)
  show it: "iteration e fuel st index = Some st"
    by (rule iteration_threw[OF assms])
  assume "index < 10"
  then have "reflexionLoop e fuel st index = reflexionLoop e fuel st (Suc index)"
    using it by (simp add: reflexionLoop_unfold)
  also have "\<dots> = (if Suc index < 10
           then (case iteration e fuel st (Suc index) of
                   None \<Rightarrow> None
                 | Some st' \<Rightarrow> reflexionLoop e fuel st' (Suc (Suc index)))
           else Some st)"
    by (simp add: reflexionLoop.simps[of e fuel st "Suc index"])
  finally show "reflexionLoop e fuel st index =
          (if Suc index < 10
           then (case iteration e fuel st (Suc index) of
                   None \<Rightarrow> None
                 | Some st' \<Rightarrow> reflexionLoop e fuel st' (Suc (Suc index)))
           else Some st)" .
qed

text \<open>
  A proposer that throws in the first iteration only, with proposals scored 2: the first
  iteration leaves \<open>demoState\<close> as it is, the second one runs on it (and rejects \<open>hook\<close>), and
  the loop continues with the third from the state the second one left.
\<close>

theorem step_exception_skips_iteration_witness:
  "reflexionStep (demoEnv firstCallFails 2) 2 (features_l demoState) (featuredVideos demoState)
      (failedFeatures demoState) 0 = Some (Inl (Error ''The model is overloaded.''))
   \<and> iteration (demoEnv firstCallFails 2) 2 demoState 0 = Some demoState
   \<and> iteration (demoEnv firstCallFails 2) 2 demoState 1
       = Some \<lparr> features_l = [f_len, f_caps], featuredVideos = videos_s (demoResult f_hook 2),
                failedFeatures = [Some f_hook] \<rparr>
   \<and> reflexionLoop (demoEnv firstCallFails 2) 2 demoState 0
       = reflexionLoop (demoEnv firstCallFails 2) 2
           \<lparr> features_l = [f_len, f_caps], featuredVideos = videos_s (demoResult f_hook 2),
             failedFeatures = [Some f_hook] \<rparr> 2"
proof -
  let ?E = "demoEnv firstCallFails 2"
  have h: "reflexionStep ?E 2 (features_l demoState) (featuredVideos demoState)
      (failedFeatures demoState) 0 = Some (Inl (Error ''The model is overloaded.''))"
    using demo_step_throws_at[where P = firstCallFails and index = 0 and s = 2
        and err = "Error ''The model is overloaded.''"]
    by (simp add: demoState_def firstCallFails_def)
  have "iteration ?E 2 demoState (Suc 0) = Some (applyResults demoState (demoResult f_hook 2))"
    by (rule demo_iteration_at) (simp add: firstCallFails_def)
  then have i1: "iteration ?E 2 demoState (Suc 0)
       = Some \<lparr> features_l = [f_len, f_caps], featuredVideos = videos_s (demoResult f_hook 2),
                failedFeatures = [Some f_hook] \<rparr>"
    by (simp add: demo_reject)
  from step_exception_skips_iteration[OF h]
  have i0: "iteration ?E 2 demoState 0 = Some demoState"
    and l: "reflexionLoop ?E 2 demoState 0 =
          (if Suc 0 < 10
           then (case iteration ?E 2 demoState (Suc 0) of
                   None \<Rightarrow> None
                 | Some st' \<Rightarrow> reflexionLoop ?E 2 st' (Suc (Suc 0)))
           else Some demoState)"
    by simp_all
  from l have "reflexionLoop ?E 2 demoState 0
       = reflexionLoop ?E 2
           \<lparr> features_l = [f_len, f_caps], featuredVideos = videos_s (demoResult f_hook 2),
             failedFeatures = [Some f_hook] \<rparr> (Suc (Suc 0))"
    by (simp add: i1)
  with h i0 i1 show ?thesis
    by (simp add: numeral_2_eq_2)
qed

section \<open>No check of the proposed name\<close>

text \<open>
  Claim C8, as the code has it: there is no collision check. Whenever the step returns, the
  feature the proposer returned has been appended to the kept features to form the
  candidate set, whatever its name, and the candidate set becomes the active set on
  improvement.
\<close>

theorem proposal_installed_unchecked:
  assumes step: "reflexionStep e fuel (features_l st) (featuredVideos st) (failedFeatures st) index = Some (Inr r)"
  shows "\<exists>mlr X Y best worst wp has.
      trainFeatureModel e (features_l st) (trainingSplit e index (featuredVideos st)) = Inr (mlr, X, Y) \<and>
      updateFeatures (features_l st) mlr = Inr (best, worst) \<and>
      getWorstPredictions e (trainingSplit e index (featuredVideos st)) mlr X Y = Inr wp \<and>
      someNamed (failedFeatures st) (name worst) = Inr has \<and>
      addFeature e index best wp
        (if has then failedFeatures st else failedFeatures st @ [Some worst]) = Inr (newFeature r) \<and>
      features_s r = best @ [newFeature r] \<and>
      iteration e fuel st index = Some (applyResults st r) \<and>
      features_l (applyResults st r) =
        (if averageLogError (newModelResults r) < averageLogError (previousModelResults r)
         then best @ [newFeature r] else features_l st)"
proof -
  from reflexionStep_Inr_elim[OF step]
  obtain mlr X Y best worst wp has where
    f: "trainFeatureModel e (features_l st) (trainingSplit e index (featuredVideos st)) = Inr (mlr, X, Y)"
      "updateFeatures (features_l st) mlr = Inr (best, worst)"
      "getWorstPredictions e (trainingSplit e index (featuredVideos st)) mlr X Y = Inr wp"
      "someNamed (failedFeatures st) (name worst) = Inr has"
      "addFeature e index best wp
        (if has then failedFeatures st else failedFeatures st @ [Some worst]) = Inr (newFeature r)"
      "features_s r = best @ [newFeature r]"
    by blast
  have "features_l (applyResults st r) =
        (if averageLogError (newModelResults r) < averageLogError (previousModelResults r)
         then best @ [newFeature r] else features_l st)"
    by (simp add: applyResults_def f(6))
  with f iteration_returned[OF step] show ?thesis by blast
qed

text \<open>The first iteration from \<open>demoState\<close> with a proposal called \<open>caps\<close>, the name of an
  active feature: the step returns, with both in the candidate set.\<close>

theorem proposal_installed_unchecked_witness:
  "reflexionStep (demoEnv (always f_caps2) 0) 2 (features_l demoState) (featuredVideos demoState)
      (failedFeatures demoState) 0 = Some (Inr (demoResult f_caps2 0))
   \<and> name (newFeature (demoResult f_caps2 0)) \<in> name ` set (features_l demoState)
   \<and> features_s (demoResult f_caps2 0) = [f_caps, f_caps2]
   \<and> iteration (demoEnv (always f_caps2) 0) 2 demoState 0 = Some (applyResults demoState (demoResult f_caps2 0))"
proof -
  have h: "reflexionStep (demoEnv (always f_caps2) 0) 2 (features_l demoState) (featuredVideos demoState)
      (failedFeatures demoState) 0 = Some (Inr (demoResult f_caps2 0))"
    using demo_step[of "always f_caps2" f_caps2 0] by (simp add: demoState_def always_def)
  from proposal_installed_unchecked[OF h]
  have i: "iteration (demoEnv (always f_caps2) 0) 2 demoState 0 = Some (applyResults demoState (demoResult f_caps2 0))"
    by blast
  show ?thesis
    using h i by (simp add: demoResult_def demoState_def f_caps_def f_caps2_def)
qed

text \<open>
  Claim C8 as stated fails there: the iteration is not abandoned, and after it the active
  set holds two features called \<open>caps\<close>.
\<close>

theorem colliding_proposal_installed:
  "name f_caps2 = name f_caps
   \<and> iteration (demoEnv (always f_caps2) 0) 2 demoState 0
       = Some \<lparr> features_l = [f_caps, f_caps2],
                featuredVideos = videos_s (demoResult f_caps2 0),
                failedFeatures = [Some f_len] \<rparr>"
proof -
  have ff: "failedFeature (demoResult f_caps2 0) = Some f_len"
    by (simp add: demoResult_def f_len_def f_caps_def f_caps2_def)
  have n: "name f_caps2 = name f_caps"
    by (simp add: f_caps_def f_caps2_def)
  have "iteration (demoEnv (always f_caps2) 0) 2 demoState 0
      = Some (applyResults demoState (demoResult f_caps2 0))"
    by (rule demo_iteration) (simp add: always_def)
  then show ?thesis
    using ff n by (simp add: demo_accept)
qed


section \<open>What the proposer is given\<close>




section \<open>The featured videos after an iteration\<close>

text \<open>
  Claim C10. When the step returns, accepted or not, the featured videos become the
  training and the validation videos of the iteration (the shuffled store, split), each
  with a score recorded under the name of the proposed feature; on reject the active
  features stay, so the store keeps scores of a feature that is not active.
\<close>

theorem rescored_videos_replace_store:
  assumes step: "reflexionStep e fuel (features_l st) (featuredVideos st) (failedFeatures st) index = Some (Inr r)"
  shows "iteration e fuel st index = Some (applyResults st r) \<and>
     featuredVideos (applyResults st r) = videos_s r \<and>
     (\<exists>newRankings valRankings.
        videos_s r = map (withScore (newFeature r) newRankings) (trainingSplit e index (featuredVideos st))
                   @ map (withScore (newFeature r) valRankings) (validationSplit e index (featuredVideos st))) \<and>
     length (featuredVideos (applyResults st r)) = length (shuffle e index (featuredVideos st)) \<and>
     (\<forall>v\<in>set (featuredVideos (applyResults st r)). features v (name (newFeature r)) \<noteq> None) \<and>
     (\<not> averageLogError (newModelResults r) < averageLogError (previousModelResults r) \<longrightarrow>
        features_l (applyResults st r) = features_l st)"
proof -
  from reflexionStep_Inr_elim[OF step]
  obtain newRankings valRankings where
    v: "videos_s r = map (withScore (newFeature r) newRankings) (trainingSplit e index (featuredVideos st))
                   @ map (withScore (newFeature r) valRankings) (validationSplit e index (featuredVideos st))"
    by blast
  have fv: "featuredVideos (applyResults st r) = videos_s r"
    by (simp add: applyResults_def)
  have len: "length (videos_s r) = length (shuffle e index (featuredVideos st))"
    unfolding v by simp
  have sc: "\<forall>v\<in>set (videos_s r). features v (name (newFeature r)) \<noteq> None"
    unfolding v by auto
  have rej: "\<not> averageLogError (newModelResults r) < averageLogError (previousModelResults r) \<longrightarrow>
        features_l (applyResults st r) = features_l st"
    by (simp add: applyResults_def)
  from iteration_returned[OF step] fv v len sc rej show ?thesis
    by (metis (no_types, lifting))
qed

text \<open>The first iteration from \<open>demoState\<close> with \<open>hook\<close> scored 2: rejected, and both
  videos carry the score of \<open>hook\<close>.\<close>

theorem rescored_videos_replace_store_witness:
  "reflexionStep (demoEnv (always f_hook) 2) 2 (features_l demoState) (featuredVideos demoState)
      (failedFeatures demoState) 0 = Some (Inr (demoResult f_hook 2))
   \<and> iteration (demoEnv (always f_hook) 2) 2 demoState 0 = Some (applyResults demoState (demoResult f_hook 2))
   \<and> features_l (applyResults demoState (demoResult f_hook 2)) = [f_len, f_caps]
   \<and> map (\<lambda>v. features v ''hook'') (featuredVideos (applyResults demoState (demoResult f_hook 2)))
       = [Some 2, Some 2]"
proof -
  have h: "reflexionStep (demoEnv (always f_hook) 2) 2 (features_l demoState) (featuredVideos demoState)
      (failedFeatures demoState) 0 = Some (Inr (demoResult f_hook 2))"
    using demo_step[of "always f_hook" f_hook 2] by (simp add: demoState_def always_def)
  from rescored_videos_replace_store[OF h]
  have i: "iteration (demoEnv (always f_hook) 2) 2 demoState 0 = Some (applyResults demoState (demoResult f_hook 2))"
    and fv: "featuredVideos (applyResults demoState (demoResult f_hook 2)) = videos_s (demoResult f_hook 2)"
    by blast+
  have sc: "map (\<lambda>v. features v ''hook'') (videos_s (demoResult f_hook 2)) = [Some 2, Some 2]"
    by (simp add: demoResult_def f_hook_def)
  show ?thesis
    using h i sc unfolding fv by (simp add: demo_reject)
qed


section \<open>The invariant of the loop\<close>

lemma iteration_cases:
  assumes "iteration e fuel st index = Some st'"
  obtains (threw) "st' = st"
  | (returned) r where
      "reflexionStep e fuel (features_l st) (featuredVideos st) (failedFeatures st) index = Some (Inr r)"
      "st' = applyResults st r"
  using assms by (auto simp: iteration_def split: option.splits sum.splits)

lemma iteration_preserves_invariant:
  assumes contract: "proposerContract e"
    and inv: "loopInvariant K st"
    and it: "iteration e fuel st index = Some st'"
  shows "loopInvariant K st'"
  using it
proof (cases rule: iteration_cases)
  case threw
  with inv show ?thesis by simp
next
  case (returned r)
  from reflexionStep_Inr_elim[OF returned(1)]
  obtain mlr best worst wp has where
    u: "updateFeatures (features_l st) mlr = Inr (best, worst)"
    and s: "someNamed (failedFeatures st) (name worst) = Inr has"
    and a: "addFeature e index best wp
        (if has then failedFeatures st else failedFeatures st @ [Some worst]) = Inr (newFeature r)"
    and fs: "features_s r = best @ [newFeature r]"
    and ff: "failedFeature r
       = find (\<lambda>f. \<not> list_ex (\<lambda>uf. name uf = name f) (best @ [newFeature r])) (features_l st)"
    by blast
  from updateFeatures_split[OF u] obtain A B where
    AB: "features_l st = A @ worst # B" "best = A @ B" by blast
  from inv have len: "length (features_l st) = K"
    and dist: "distinct (map name (features_l st))"
    and nn: "None \<notin> set (failedFeatures st)"
    and disj: "\<forall>f\<in>set (features_l st). \<forall>g. Some g \<in> set (failedFeatures st) \<longrightarrow> name f \<noteq> name g"
    by (simp_all add: loopInvariant_def)
  have "worst \<in> set (features_l st)"
    by (simp add: AB)
  with disj have "\<forall>g. Some g \<in> set (failedFeatures st) \<longrightarrow> name worst \<noteq> name g"
    by blast
  then have "\<not> has"
    using someNamed_Inr[OF s] by auto
  with a have a': "addFeature e index best wp (failedFeatures st @ [Some worst]) = Inr (newFeature r)"
    by simp
  from contract[unfolded proposerContract_def, rule_format, OF a']
  have fresh: "\<forall>f\<in>set best. name f \<noteq> name (newFeature r)"
    "\<forall>f. Some f \<in> set (failedFeatures st) \<longrightarrow> name f \<noteq> name (newFeature r)"
    "name (newFeature r) \<noteq> name worst"
    by auto
  have ev: "failedFeature r = Some worst"
    unfolding ff AB using find_evicted[of A worst B "newFeature r"] dist fresh(3) AB by simp
  show ?thesis
  proof (cases "averageLogError (newModelResults r) < averageLogError (previousModelResults r)")
    case True
    then have st': "features_l st' = best @ [newFeature r]"
      "failedFeatures st' = failedFeatures st @ [Some worst]"
      using returned(2) fs ev by (simp_all add: applyResults_def)
    show ?thesis
      unfolding loopInvariant_def st'
      using len dist nn disj fresh unfolding AB
      by (auto simp: image_iff)
  next
    case False
    then have st': "features_l st' = features_l st"
      "failedFeatures st' = failedFeatures st @ [Some (newFeature r)]"
      using returned(2) by (simp_all add: applyResults_def)
    show ?thesis
      unfolding loopInvariant_def st'
      using len dist nn disj fresh unfolding AB
      by (auto simp: image_iff)
  qed
qed

lemma reachable_invariant:
  assumes "proposerContract e" and "loopInvariant K st0" and "reachable e fuel st0 st"
  shows "loopInvariant K st"
  using assms(3)
proof (induction rule: reachable.induct)
  case start
  show ?case by (rule assms(2))
next
  case (step st index st')
  from iteration_preserves_invariant[OF assms(1) step.IH step.hyps(2)] show ?case .
qed

lemma reflexionLoop_reachable:
  assumes "reachable e fuel st0 st" and "reflexionLoop e fuel st index = Some st'"
  shows "reachable e fuel st0 st'"
  using assms
proof (induction e fuel st index rule: reflexionLoop.induct)
  case (1 e fuel st index)
  show ?case
  proof (cases "index < 10")
    case False
    with "1.prems" show ?thesis by (simp add: reflexionLoop.simps[of e fuel st index])
  next
    case True
    with "1.prems"(2) obtain st1 where
      it: "iteration e fuel st index = Some st1"
      and rest: "reflexionLoop e fuel st1 (Suc index) = Some st'"
      by (auto simp: reflexionLoop.simps[of e fuel st index] split: option.splits)
    from "1.IH"[OF True it reachable.step[OF "1.prems"(1) it] rest] show ?thesis .
  qed
qed

text \<open>The invariant holds of the state \<^verbatim>\<open>runReflexion\<close> ends its loop with.\<close>

lemma reflexionLoop_invariant:
  assumes "proposerContract e" and "distinct (map name fs)"
    and "reflexionLoop e fuel \<lparr> features_l = fs, featuredVideos = vs, failedFeatures = [] \<rparr> 0 = Some st"
  shows "loopInvariant (length fs) st"
proof -
  let ?st0 = "\<lparr> features_l = fs, featuredVideos = vs, failedFeatures = [] \<rparr>"
  have "loopInvariant (length fs) ?st0"
    using assms(2) by (simp add: loopInvariant_def)
  moreover have "reachable e fuel ?st0 st"
    by (rule reflexionLoop_reachable[OF reachable.start assms(3)])
  ultimately show ?thesis
    by (rule reachable_invariant[OF assms(1)])
qed

lemma freshName_longer: "n \<in> set names \<Longrightarrow> length n < length (freshName names)"
  by (induction names) (auto simp: freshName_def)

lemma freshName_fresh: "freshName names \<notin> set names"
  using freshName_longer[of "freshName names" names] by auto

lemma freshFeature_contract: "proposerContract (demoEnv freshFeature s)"
proof -
  have "(\<forall>f\<in>set best. name f \<noteq> name nf) \<and> (\<forall>f. Some f \<in> set failed \<longrightarrow> name f \<noteq> name nf)"
    if "freshFeature index best failed = Inr nf" for index best failed nf
  proof -
    let ?names = "map name best @ concat (map (\<lambda>x. case x of None \<Rightarrow> [] | Some f \<Rightarrow> [name f]) failed)"
    from that have n: "name nf = freshName ?names"
      by (auto simp: freshFeature_def)
    have "name f \<in> set ?names" if "f \<in> set best" for f
      using that by simp
    moreover have "name f \<in> set ?names" if "Some f \<in> set failed" for f
      using that by (auto intro!: bexI[where x = "Some f"])
    ultimately show ?thesis
      using freshName_fresh[of ?names] unfolding n by metis
  qed
  then show ?thesis by (simp add: proposerContract_def)
qed

text \<open>
  Claim C4. From a state with \<open>K\<close> active features of pairwise distinct names and an empty
  history, with a proposer that honours its contract, every state the loop can reach has
  \<open>K\<close> active features, of pairwise distinct names, none of which shares its name with a
  rejected feature; in particular none of them is in the history.
\<close>

theorem active_set_invariant:
  assumes "proposerContract e"
    and "distinct (map name (features_l st0))"
    and "failedFeatures st0 = []"
    and "reachable e fuel st0 st"
  shows "length (features_l st) = length (features_l st0) \<and>
     distinct (map name (features_l st)) \<and>
     (\<forall>f\<in>set (features_l st). \<forall>g. Some g \<in> set (failedFeatures st) \<longrightarrow> name f \<noteq> name g) \<and>
     (\<forall>f\<in>set (features_l st). Some f \<notin> set (failedFeatures st))"
proof -
  have "loopInvariant (length (features_l st0)) st0"
    using assms(2,3) by (simp add: loopInvariant_def)
  from reachable_invariant[OF assms(1) this assms(4)]
  show ?thesis by (auto simp: loopInvariant_def)
qed

lemma freshFeature_demo: "freshFeature index [f_caps] [Some f_len] = Inr f_fresh"
  by (simp add: freshFeature_def freshName_def f_caps_def f_len_def f_fresh_def numeral_eq_Suc)

text \<open>
  The proposer \<open>freshFeature\<close> honours the contract; the state after the first iteration
  from \<open>demoState\<close> (accepted) is reachable and has two features of distinct names.
\<close>

theorem active_set_invariant_witness:
  "proposerContract (demoEnv freshFeature 0)
   \<and> distinct (map name (features_l demoState))
   \<and> failedFeatures demoState = []
   \<and> reachable (demoEnv freshFeature 0) 2 demoState (applyResults demoState (demoResult f_fresh 0))
   \<and> features_l (applyResults demoState (demoResult f_fresh 0)) = [f_caps, f_fresh]
   \<and> failedFeatures (applyResults demoState (demoResult f_fresh 0)) = [Some f_len]
   \<and> length (features_l (applyResults demoState (demoResult f_fresh 0))) = length (features_l demoState)
   \<and> distinct (map name (features_l (applyResults demoState (demoResult f_fresh 0))))"
proof -
  have c: "proposerContract (demoEnv freshFeature 0)"
    by (rule freshFeature_contract)
  have d: "distinct (map name (features_l demoState))"
    by (simp add: demoState_def f_len_def f_caps_def)
  have f: "failedFeatures demoState = []"
    by (simp add: demoState_def)
  have "iteration (demoEnv freshFeature 0) 2 demoState 0
      = Some (applyResults demoState (demoResult f_fresh 0))"
    by (rule demo_iteration[of freshFeature f_fresh 0, OF freshFeature_demo])
  then have r: "reachable (demoEnv freshFeature 0) 2 demoState (applyResults demoState (demoResult f_fresh 0))"
    by (rule reachable.step[OF reachable.start])
  have ff: "failedFeature (demoResult f_fresh 0) = Some f_len"
    by (simp add: demoResult_def f_len_def f_caps_def f_fresh_def)
  from active_set_invariant[OF c d f r]
  have "length (features_l (applyResults demoState (demoResult f_fresh 0))) = length (features_l demoState)"
    and "distinct (map name (features_l (applyResults demoState (demoResult f_fresh 0))))"
    by blast+
  with c d f r ff show ?thesis
    by (simp add: demo_accept)
qed


section \<open>The batching loop\<close>

text \<open>The counter \<^verbatim>\<open>failures\<close> grows only in a pass that finds fewer unranked videos than
  a batch holds. When as many videos as a batch holds go unanswered, nothing changes from
  one pass to the next.\<close>

lemma rankLoop_unanswered:
  assumes "batchSize \<le> length videos" and "videos \<noteq> []"
  shows "rankLoop fuel silentClient nfkc videos fs ollamaModel batchSize [] failures calls = None"
  using assms
proof (induction fuel arbitrary: failures calls)
  case 0
  show ?case by simp
next
  case (Suc fuel)
  from Suc.prems have "\<not> length videos < batchSize" "0 < length videos" by simp_all
  then show ?case
    using Suc.IH[OF Suc.prems] by (simp add: silentClient_def[abs_def])
qed

lemma length_fortyVideos: "length fortyVideos = 40"
  by (simp add: fortyVideos_def)

text \<open>
  Claim C7 fails on the code. \<^verbatim>\<open>rankVideos\<close> on forty videos and one feature (a batch of
  forty), with a client that answers every call with the empty array: whatever the fuel,
  the loop uses it up. It neither returns nor throws.
\<close>

theorem rankVideos_never_settles:
  "\<forall>fuel. rankVideos fuel silentClient (\<lambda>s. s) fortyVideos [f_hook] None = None"
proof
  fix fuel
  have "fortyVideos \<noteq> []"
    using length_fortyVideos by auto
  then show "rankVideos fuel silentClient (\<lambda>s. s) fortyVideos [f_hook] None = None"
    by (simp add: rankVideos_def rankLoop_unanswered length_fortyVideos)
qed

text \<open>The loop also ends as soon as it holds as many rankings as there are videos, whoever
  they rank: two rankings of the first of two videos end it with the second one unscored.\<close>

lemma rankVideos_returns_unscored:
  "rankVideos 2 echoClient (\<lambda>s. s) [video ''a'' 1 1, video ''b'' 1 1] [f_hook] None
     = Some (Inr [\<lparr> title_r = ''a'', features_r = [''hook'' \<mapsto> 5] \<rparr>,
                  \<lparr> title_r = ''a'', features_r = [''hook'' \<mapsto> 5] \<rparr>])"
  by (simp add: rankVideos_def numeral_2_eq_2 echoClient_def video_def f_hook_def MAX_TRIES_def)

text \<open>The retry budget does end the loop when the videos are fewer than a batch holds:
  with enough fuel for the passes the budget allows it returns or throws, whatever the
  client answers.\<close>

lemma rankLoop_tail_settles:
  assumes "length videos < batchSize"
    and "failures \<le> MAX_TRIES" and "MAX_TRIES + 1 - failures \<le> fuel"
  shows "rankLoop fuel llm nfkc videos fs ollamaModel batchSize rankings failures calls \<noteq> None"
  using assms(2,3)
proof (induction fuel arbitrary: rankings failures calls)
  case 0
  then show ?case by (simp add: MAX_TRIES_def)
next
  case (Suc fuel)
  have short: "length (filter P videos) < batchSize" for P
    using assms(1) length_filter_le[of P videos] by linarith
  show ?case
  proof (cases "failures \<ge> MAX_TRIES")
    case True
    then show ?thesis by (simp add: short Let_def)
  next
    case False
    with Suc.prems have "failures + 1 \<le> MAX_TRIES" "MAX_TRIES + 1 - (failures + 1) \<le> fuel"
      by simp_all
    from Suc.IH[OF this] show ?thesis
      using False by (auto simp: short Let_def split: sum.splits)
  qed
qed


end
